theory Spec2Isabelle
  imports
    Complex_Main
    "HOL-Library.AList"
    "HOL-Library.List_Lexorder"
    "HOL-Library.Product_Lexorder"
begin

section \<open>Data model\<close>

text \<open>
  A time of day travels through the program as a string \<open>"H:M"\<close>. Every reader of such a
  string does \<open>s.split(":").map(Number)\<close> and takes the first two numbers; every writer
  builds it from two integers (\<open>String(h).padStart(2,'0')\<close>, or date-fns \<open>format(d, "HH:mm")\<close>).
  The model keeps the two integers: \<open>(h, m)\<close> stands for the string whose two fields read
  back as \<open>h\<close> and \<open>m\<close>. Padding does not change the number read back, and a negative
  field such as \<open>"-1"\<close> reads back as \<open>-1\<close>. Malformed strings (fields that read as NaN)
  are outside the model. Numbers are the integers the program computes with; the
  pointer coordinates, which are fractional, are real numbers.
\<close>

type_synonym hhmm = "int \<times> int"

text \<open>\<open>hours * 60 + minutes\<close>, as every reader computes it.\<close>

definition toMinutes :: "hhmm \<Rightarrow> int" where
  "toMinutes t = fst t * 60 + snd t"

text \<open>
  The staged edit \<open>{ time, table, duration }\<close> (the value type of \<open>pendingChanges\<close>), and
  \<open>Booking\<close>, which has these three fields and more. \<open>table\<close> is the label after
  \<open>String(...)\<close>. A calendar day is written \<open>yyyy-MM-dd\<close> in the program; the model
  keeps the day's number (days since 1970-01-01), which names the same day: two such
  strings are equal exactly when the day numbers are.
\<close>

record pending_change =
  time :: hhmm
  table :: string
  duration :: int

record booking = pending_change +
  booking_id :: nat
  date :: int

record restaurant_table =
  table_number :: string
  min_capacity :: int
  max_capacity :: int
  is_active :: bool

section \<open>Availability (NewBookingCalendar.checkAvailability, NewBooking.availableTables)\<close>

text \<open>
  The overlap test both components write out:
  \<open>startMinutes < existingEndMinutes && endMinutes > existingStartMinutes\<close>.
\<close>

definition overlaps :: "int \<Rightarrow> int \<Rightarrow> int \<Rightarrow> int \<Rightarrow> bool" where
  "overlaps startMinutes endMinutes existingStartMinutes existingEndMinutes \<longleftrightarrow>
     startMinutes < existingEndMinutes \<and> endMinutes > existingStartMinutes"

text \<open>
  \<open>tableBookings = bookings.filter(b => b.date === dateStr && String(b.table) === tableNumber)\<close>
  followed by \<open>tableBookings.some(booking => ...)\<close>.
\<close>

definition tableBookings :: "booking list \<Rightarrow> int \<Rightarrow> string \<Rightarrow> booking list" where
  "tableBookings bookings dateStr tableNumber =
     filter (\<lambda>b. date b = dateStr \<and> table b = tableNumber) bookings"

definition hasConflict :: "booking list \<Rightarrow> int \<Rightarrow> string \<Rightarrow> int \<Rightarrow> int \<Rightarrow> bool" where
  "hasConflict bookings dateStr tableNumber startMinutes endMinutes =
     list_ex (\<lambda>b. overlaps startMinutes endMinutes
                     (toMinutes (time b)) (toMinutes (time b) + duration b))
       (tableBookings bookings dateStr tableNumber)"

text \<open>
  \<open>canAccommodate = table && table.is_active && table.max_capacity >= guests\<close> where
  \<open>table = tablesData.find(t => String(t.table_number) === checkTable)\<close>.
\<close>

definition canAccommodate :: "restaurant_table list \<Rightarrow> int \<Rightarrow> string \<Rightarrow> bool" where
  "canAccommodate tablesData guests checkTable =
     (case find (\<lambda>t. table_number t = checkTable) tablesData of
        None \<Rightarrow> False
      | Some t \<Rightarrow> is_active t \<and> max_capacity t \<ge> guests)"

text \<open>
  \<open>Array.prototype.sort\<close> with a comparator is a stable sort; an element moves in
  front of another only when the comparator is negative or zero for the pair in that
  order. The comparator is a parameter here.
\<close>

fun insort_cmp :: "('a \<Rightarrow> 'a \<Rightarrow> int) \<Rightarrow> 'a \<Rightarrow> 'a list \<Rightarrow> 'a list" where
  "insort_cmp cmp x [] = [x]"
| "insort_cmp cmp x (y # ys) =
     (if cmp x y \<le> 0 then x # y # ys else y # insort_cmp cmp x ys)"

definition sort_cmp :: "('a \<Rightarrow> 'a \<Rightarrow> int) \<Rightarrow> 'a list \<Rightarrow> 'a list" where
  "sort_cmp cmp xs = foldr (insort_cmp cmp) xs []"

text \<open>
  Modelled from the spec: \<open>String.prototype.localeCompare(b, undefined, {numeric: true})\<close>
  is the platform's collation, not code of the repository. The spec's words are
  "numeric segments compared as numbers, not lexicographically". A label is cut into
  segments: a maximal run of decimal digits is one segment carrying its value, any other
  character is a segment of its own carrying its code. Digit segments come before other
  characters, and labels compare by their segments from the left.
\<close>

definition is_digit :: "char \<Rightarrow> bool" where
  "is_digit c \<longleftrightarrow> 48 \<le> (of_char c :: nat) \<and> (of_char c :: nat) \<le> 57"

definition digit_val :: "char \<Rightarrow> nat" where
  "digit_val c = of_char c - 48"

fun segments :: "nat option \<Rightarrow> string \<Rightarrow> (nat \<times> nat) list" where
  "segments None [] = []"
| "segments (Some n) [] = [(0, n)]"
| "segments None (c # cs) =
     (if is_digit c then segments (Some (digit_val c)) cs
      else (1, of_char c) # segments None cs)"
| "segments (Some n) (c # cs) =
     (if is_digit c then segments (Some (n * 10 + digit_val c)) cs
      else (0, n) # (1, of_char c) # segments None cs)"

definition label_key :: "string \<Rightarrow> (nat \<times> nat) list" where
  "label_key s = segments None s"

definition localeCompare_numeric :: "string \<Rightarrow> string \<Rightarrow> int" where
  "localeCompare_numeric a b =
     (if label_key a < label_key b then - 1
      else if label_key a = label_key b then 0 else 1)"

text \<open>
  \<open>checkAvailability(checkTime, checkDate, checkTable?)\<close> closes over \<open>duration\<close>,
  \<open>guests\<close>, \<open>tablesData\<close> and \<open>bookings\<close>. With a (non-empty) \<open>checkTable\<close> it answers
  whether that table is free; without one it returns the first free table's label, or
  null. The two kinds of answer are the two constructors of the result.
\<close>

datatype availability = Available bool | FirstTable "string option"

definition eligibleTables :: "restaurant_table list \<Rightarrow> int \<Rightarrow> restaurant_table list" where
  "eligibleTables tablesData guests =
     sort_cmp (\<lambda>a b. localeCompare_numeric (table_number a) (table_number b))
       (filter (\<lambda>t. is_active t \<and> max_capacity t \<ge> guests) tablesData)"

fun firstFree :: "booking list \<Rightarrow> int \<Rightarrow> int \<Rightarrow> int \<Rightarrow> restaurant_table list \<Rightarrow> string option" where
  "firstFree bookings dateStr startMinutes endMinutes [] = None"
| "firstFree bookings dateStr startMinutes endMinutes (t # ts) =
     (if \<not> hasConflict bookings dateStr (table_number t) startMinutes endMinutes
      then Some (table_number t)
      else firstFree bookings dateStr startMinutes endMinutes ts)"

definition checkAvailability ::
  "int \<Rightarrow> int \<Rightarrow> restaurant_table list \<Rightarrow> booking list \<Rightarrow>
   hhmm \<Rightarrow> int \<Rightarrow> string option \<Rightarrow> availability" where
  "checkAvailability duration' guests tablesData bookings checkTime dateStr checkTable =
     (let startMinutes = toMinutes checkTime;
          endMinutes = startMinutes + duration'
      in case checkTable of
           Some ct \<Rightarrow>
             if ct \<noteq> [] then
               Available (\<not> hasConflict bookings dateStr ct startMinutes endMinutes
                          \<and> canAccommodate tablesData guests ct)
             else FirstTable (firstFree bookings dateStr startMinutes endMinutes
                                (eligibleTables tablesData guests))
         | None \<Rightarrow>
             FirstTable (firstFree bookings dateStr startMinutes endMinutes
                           (eligibleTables tablesData guests)))"

text \<open>
  \<open>availableTables\<close> of the booking form: three filters in a row (active; capacity, skipped
  when the guest count is 0; no conflicting booking), then the labels. The form's date
  and time are present and well formed in the model, so the early \<open>return []\<close> for a
  missing date or time and the \<open>catch\<close> branches do not arise. This is the value the
  callback computes; the form memoises it on date, time, duration, tables and bookings
  and reads the guest count when it recomputes, so after a change of the guest count
  alone the form still holds the list computed for the previous count.
\<close>

definition capacityFilter :: "int \<Rightarrow> restaurant_table \<Rightarrow> bool" where
  "capacityFilter watchedGuests t =
     (if watchedGuests = 0 then True
      else min_capacity t \<le> watchedGuests \<and> max_capacity t \<ge> watchedGuests)"

definition conflictFilter :: "booking list \<Rightarrow> int \<Rightarrow> int \<Rightarrow> int \<Rightarrow> restaurant_table \<Rightarrow> bool" where
  "conflictFilter bookings selectedDateStr bookingStartMinutes bookingEndMinutes t =
     (\<not> hasConflict bookings selectedDateStr (table_number t)
          bookingStartMinutes bookingEndMinutes)"

definition availableTables ::
  "restaurant_table list \<Rightarrow> booking list \<Rightarrow> int \<Rightarrow> hhmm \<Rightarrow> int \<Rightarrow> int \<Rightarrow> string list" where
  "availableTables tables bookings selectedDateStr watchedTime watchedDuration watchedGuests =
     (if tables = [] then []
      else
        let bookingStartMinutes = toMinutes watchedTime;
            bookingEndMinutes = bookingStartMinutes + watchedDuration
        in map table_number
             (filter (conflictFilter bookings selectedDateStr bookingStartMinutes bookingEndMinutes)
               (filter (capacityFilter watchedGuests)
                 (filter is_active tables))))"

text \<open>The tables of the demo data (\<open>mockTables\<close> of \<open>mockData.ts\<close>).\<close>

definition mockTables :: "restaurant_table list" where
  "mockTables =
     [\<lparr>table_number = ''1'', min_capacity = 2, max_capacity = 4, is_active = True\<rparr>,
      \<lparr>table_number = ''2'', min_capacity = 2, max_capacity = 4, is_active = True\<rparr>,
      \<lparr>table_number = ''3'', min_capacity = 2, max_capacity = 4, is_active = True\<rparr>,
      \<lparr>table_number = ''4'', min_capacity = 4, max_capacity = 6, is_active = True\<rparr>,
      \<lparr>table_number = ''5'', min_capacity = 4, max_capacity = 6, is_active = True\<rparr>,
      \<lparr>table_number = ''6'', min_capacity = 6, max_capacity = 8, is_active = True\<rparr>]"

section \<open>Dates (the JavaScript Date and the date-fns functions the calendar calls)\<close>

text \<open>
  A \<open>Date\<close> is its number of milliseconds on the local time line; local time is taken
  without daylight-saving jumps and with midnight of day \<open>n\<close> at \<open>n * 86400000\<close>.
  \<open>setHours\<close> and \<open>setMinutes\<close> replace one field and let an out-of-range value carry
  over, as the JavaScript setters do.
\<close>

type_synonym jsdate = int

definition getHours :: "jsdate \<Rightarrow> int" where
  "getHours d = (d div 3600000) mod 24"

definition getMinutes :: "jsdate \<Rightarrow> int" where
  "getMinutes d = (d div 60000) mod 60"

definition getSeconds :: "jsdate \<Rightarrow> int" where
  "getSeconds d = (d div 1000) mod 60"

definition setHours :: "jsdate \<Rightarrow> int \<Rightarrow> jsdate" where
  "setHours d h = d + (h - getHours d) * 3600000"

definition setMinutes :: "jsdate \<Rightarrow> int \<Rightarrow> jsdate" where
  "setMinutes d m = d + (m - getMinutes d) * 60000"

definition setSeconds :: "jsdate \<Rightarrow> int \<Rightarrow> jsdate" where
  "setSeconds d s = d + (s - getSeconds d) * 1000"

definition subHours :: "jsdate \<Rightarrow> int \<Rightarrow> jsdate" where
  "subHours d n = d - n * 3600000"

text \<open>\<open>differenceInMinutes\<close> truncates the quotient toward zero.\<close>

definition differenceInMinutes :: "jsdate \<Rightarrow> jsdate \<Rightarrow> int" where
  "differenceInMinutes a b = sgn (a - b) * (\<bar>a - b\<bar> div 60000)"

text \<open>\<open>format(d, "HH:mm")\<close> and \<open>format(d, "yyyy-MM-dd")\<close>.\<close>

definition format_HHmm :: "jsdate \<Rightarrow> hhmm" where
  "format_HHmm d = (getHours d, getMinutes d)"


text \<open>
  \<open>new Date(booking.date)\<close> for a \<open>yyyy-MM-dd\<close> string is midnight of the day in UTC. The
  model takes the browser's local time at UTC, where this is local midnight. East of UTC
  the instant is some hours into the same local day and \<open>setHours\<close>, \<open>setMinutes\<close> bring
  it to the same result; west of UTC it falls on the day before, which the model does
  not follow.
\<close>

definition newDate :: "int \<Rightarrow> jsdate" where
  "newDate day = day * 86400000"

text \<open>\<open>new Date(x)\<close> for a fractional number of milliseconds drops the fraction (toward zero).\<close>

definition newDate_ms :: "real \<Rightarrow> jsdate" where
  "newDate_ms x = (if 0 \<le> x then \<lfloor>x\<rfloor> else \<lceil>x\<rceil>)"

text \<open>\<open>Math.round\<close>: the nearest integer, a tie going up. \<open>a % b\<close>: the remainder with the
  sign of \<open>a\<close>.\<close>

definition Math_round :: "real \<Rightarrow> int" where
  "Math_round x = \<lfloor>x + 1 / 2\<rfloor>"

definition js_rem :: "int \<Rightarrow> int \<Rightarrow> int" where
  "js_rem a b = sgn a * (\<bar>a\<bar> mod \<bar>b\<bar>)"

section \<open>The booking calendar (BookingCalendar)\<close>

datatype side = Left | Right

record preview_position =
  pv_table :: string
  pv_time :: hhmm
  leftPercent :: real

text \<open>
  The component's state, one field per \<open>useState\<close>. \<open>pendingChanges\<close> is a JavaScript
  \<open>Map\<close>: keys are unique, \<open>set\<close> replaces the value of a key that is present (in
  place) and appends a new key, \<open>forEach\<close> visits the entries in that order; this is an
  association list under \<open>AList.update\<close> and \<open>map_of\<close>. The empty string of \<open>previewTime\<close>
  is \<open>None\<close>.
\<close>

record calendar_state =
  selectedDate :: jsdate
  currentTime :: jsdate
  isQuickEdit :: bool
  pendingChanges :: "(nat \<times> pending_change) list"
  selectedBooking :: "booking option"
  clickOffsetPercent :: real
  selectedBookingWidth :: real
  previewPosition :: "preview_position option"
  resizeMode :: "side option"
  resizeBooking :: "booking option"
  previewDuration :: int
  previewTime :: "hhmm option"

definition MIN_DURATION :: int where "MIN_DURATION = 60"
definition MAX_DURATION :: int where "MAX_DURATION = 180"
definition WINDOW_HOURS_PREV :: int where "WINDOW_HOURS_PREV = 1"
definition WINDOW_HOURS_NEXT :: int where "WINDOW_HOURS_NEXT = 6"
definition TOTAL_WINDOW_MINUTES :: int where
  "TOTAL_WINDOW_MINUTES = (WINDOW_HOURS_PREV + WINDOW_HOURS_NEXT) * 60"
definition EDGE_ZONE :: real where "EDGE_ZONE = 16"

text \<open>
  \<open>windowStart = subHours(currentTime, WINDOW_HOURS_PREV)\<close>;
  \<open>viewStart = setMinutes(setHours(selectedDate, windowStart.getHours()), windowStart.getMinutes())\<close>.
\<close>

definition windowStart :: "calendar_state \<Rightarrow> jsdate" where
  "windowStart st = subHours (currentTime st) WINDOW_HOURS_PREV"

definition viewStart :: "calendar_state \<Rightarrow> jsdate" where
  "viewStart st =
     setMinutes (setHours (selectedDate st) (getHours (windowStart st)))
       (getMinutes (windowStart st))"

text \<open>\<open>getBookingPosition\<close> reads only \<open>time\<close> and \<open>date\<close> of its argument.\<close>

definition getBookingPosition :: "calendar_state \<Rightarrow> hhmm \<Rightarrow> int \<Rightarrow> real" where
  "getBookingPosition st t day =
     (let bookingDate = setMinutes (setHours (newDate day) (fst t)) (snd t);
          diff = differenceInMinutes bookingDate (viewStart st)
      in real_of_int diff / real_of_int TOTAL_WINDOW_MINUTES * 100)"

definition getWidth :: "int \<Rightarrow> real" where
  "getWidth durationMinutes = real_of_int durationMinutes / real_of_int TOTAL_WINDOW_MINUTES * 100"

definition clearSelectionState :: "calendar_state \<Rightarrow> calendar_state" where
  "clearSelectionState st =
     st\<lparr>selectedBooking := None, clickOffsetPercent := 0, selectedBookingWidth := 0,
        previewPosition := None, resizeMode := None, resizeBooking := None,
        previewDuration := 0, previewTime := None\<rparr>"

definition toggleQuickEdit :: "calendar_state \<Rightarrow> calendar_state" where
  "toggleQuickEdit st =
     (if isQuickEdit st
      then (clearSelectionState (st\<lparr>pendingChanges := []\<rparr>))\<lparr>isQuickEdit := False\<rparr>
      else st\<lparr>isQuickEdit := True\<rparr>)"

definition handleCancelQuickEdit :: "calendar_state \<Rightarrow> calendar_state" where
  "handleCancelQuickEdit st =
     (clearSelectionState (st\<lparr>pendingChanges := []\<rparr>))\<lparr>isQuickEdit := False\<rparr>"

text \<open>
  \<open>handleApplyQuickEdit\<close> calls \<open>updateMutation.mutate({ id, updates })\<close> once for each
  entry \<open>forEach\<close> visits and then resets the state. The result is the list of calls, in
  order, and the next state.
\<close>

definition handleApplyQuickEdit ::
  "calendar_state \<Rightarrow> (nat \<times> pending_change) list \<times> calendar_state" where
  "handleApplyQuickEdit st =
     (map (\<lambda>(bookingId, changes). (bookingId, changes)) (pendingChanges st),
      (clearSelectionState (st\<lparr>pendingChanges := []\<rparr>))\<lparr>isQuickEdit := False\<rparr>)"

text \<open>\<open>{ ...booking, ...pending }\<close>: the three staged fields replace the booking's.\<close>

definition spread :: "booking \<Rightarrow> pending_change \<Rightarrow> booking" where
  "spread b p = b\<lparr>time := time p, table := table p, duration := duration p\<rparr>"

definition getEffectiveBooking :: "calendar_state \<Rightarrow> booking \<Rightarrow> booking" where
  "getEffectiveBooking st b =
     (case map_of (pendingChanges st) (booking_id b) of
        Some pending \<Rightarrow> spread b pending
      | None \<Rightarrow>
          if (case resizeBooking st of Some rb \<Rightarrow> booking_id rb = booking_id b | None \<Rightarrow> False)
             \<and> previewDuration st > 0
          then b\<lparr>duration := previewDuration st,
                 time := (case previewTime st of Some t \<Rightarrow> t | None \<Rightarrow> time b)\<rparr>
          else b)"

text \<open>
  The resize confirmation that \<open>handleArrowClick\<close>, \<open>handleBookingClick\<close> and
  \<open>handleRowClick\<close> each write out: stage
  \<open>{ time: previewTime || existingChanges?.time || booking.time,
     table: existingChanges?.table ?? booking.table, duration: previewDuration }\<close>
  under the booking's id, then clear the selection.
\<close>

definition confirmResize :: "calendar_state \<Rightarrow> booking \<Rightarrow> calendar_state" where
  "confirmResize st rb =
     (let existingChanges = map_of (pendingChanges st) (booking_id rb);
          baseTable = (case existingChanges of Some c \<Rightarrow> table c | None \<Rightarrow> table rb);
          t = (case previewTime st of
                 Some pt \<Rightarrow> pt
               | None \<Rightarrow> (case existingChanges of Some c \<Rightarrow> time c | None \<Rightarrow> time rb))
      in clearSelectionState
           (st\<lparr>pendingChanges :=
                  AList.update (booking_id rb)
                    \<lparr>time = t, table = baseTable, duration = previewDuration st\<rparr>
                    (pendingChanges st)\<rparr>))"

definition sameBooking :: "booking option \<Rightarrow> booking \<Rightarrow> bool" where
  "sameBooking ob b = (case ob of Some x \<Rightarrow> booking_id x = booking_id b | None \<Rightarrow> False)"

definition enterResize :: "calendar_state \<Rightarrow> booking \<Rightarrow> side \<Rightarrow> calendar_state" where
  "enterResize st b sd =
     (let effective = getEffectiveBooking st b
      in (clearSelectionState st)
           \<lparr>resizeMode := Some sd, resizeBooking := Some b,
            previewDuration := duration effective, previewTime := Some (time effective)\<rparr>)"

definition handleArrowClick :: "calendar_state \<Rightarrow> booking \<Rightarrow> side \<Rightarrow> calendar_state" where
  "handleArrowClick st b sd =
     (if \<not> isQuickEdit st then st
      else if sameBooking (resizeBooking st) b \<and> resizeMode st = Some sd then confirmResize st b
      else if sameBooking (resizeBooking st) b \<and> resizeMode st \<noteq> None \<and> resizeMode st \<noteq> Some sd
      then st\<lparr>resizeMode := Some sd\<rparr>
      else enterResize st b sd)"

text \<open>
  \<open>handleBookingClick\<close>; \<open>offsetX\<close> is the pointer's distance from the block's left edge and
  \<open>width\<close> the block's width, both in pixels. Outside edit mode the click opens the booking's page
  and the state stays.
\<close>

definition handleBookingClick :: "calendar_state \<Rightarrow> booking \<Rightarrow> real \<Rightarrow> real \<Rightarrow> calendar_state" where
  "handleBookingClick st b offsetX width =
     (if \<not> isQuickEdit st then st
      else case (resizeBooking st, resizeMode st) of
        (Some rb, Some m) \<Rightarrow> confirmResize st rb
      | _ \<Rightarrow>
        if sameBooking (selectedBooking st) b then clearSelectionState st
        else
          let isNearLeftEdge = (offsetX \<le> EDGE_ZONE);
              isNearRightEdge = (offsetX \<ge> width - EDGE_ZONE);
              effective = getEffectiveBooking st b
          in if isNearLeftEdge \<or> isNearRightEdge
             then enterResize st b (if isNearLeftEdge then Left else Right)
             else (clearSelectionState st)
                    \<lparr>selectedBooking := Some b,
                     clickOffsetPercent := offsetX / width * getWidth (duration b),
                     selectedBookingWidth := width,
                     previewPosition :=
                       Some \<lparr>pv_table = table effective, pv_time = time effective,
                             leftPercent = getBookingPosition st (time effective) (date effective)\<rparr>\<rparr>)"

text \<open>
  The pointer's place in the row's content area, as a percentage clamped to the row:
  \<open>Math.max(0, Math.min(100, (mouseX / contentWidth) * 100))\<close>. The content area has a
  positive width; for a width of 0 the JavaScript quotient is infinite or NaN, which the
  real quotient does not follow. The arithmetic is exact, where the program rounds each
  operation to a double: the two agree up to that rounding, which can decide on which
  side of a tie of the snapping a pointer position falls.
\<close>

definition mousePercentage :: "real \<Rightarrow> real \<Rightarrow> real" where
  "mousePercentage mouseX contentWidth = max 0 (min 100 (mouseX / contentWidth * 100))"

text \<open>\<open>Math.round(mouseTimeMinutes / 15) * 15\<close>, the snapping of the resize branch.\<close>

definition snap15 :: "real \<Rightarrow> int" where
  "snap15 mouseTimeMinutes = Math_round (mouseTimeMinutes / 15) * 15"

text \<open>
  The two time strings the resize branch builds with
  \<open>Math.floor(x / 60)\<close> and \<open>x % 60\<close>.
\<close>

definition minutesToString :: "int \<Rightarrow> hhmm" where
  "minutesToString x = (x div 60, js_rem x 60)"

text \<open>The resize branch of \<open>handleMouseMove\<close>.\<close>

definition resizeMove :: "calendar_state \<Rightarrow> booking \<Rightarrow> side \<Rightarrow> real \<Rightarrow> real \<Rightarrow> calendar_state" where
  "resizeMove st rb m mouseX contentWidth =
     (let existingChanges = map_of (pendingChanges st) (booking_id rb);
          currentTime' = (case previewTime st of
                            Some pt \<Rightarrow> pt
                          | None \<Rightarrow> (case existingChanges of Some c \<Rightarrow> time c | None \<Rightarrow> time rb));
          startTimeMinutes = toMinutes currentTime';
          currentDuration =
            (if previewDuration st > 0 then previewDuration st
             else (case existingChanges of
                     Some c \<Rightarrow> if duration c \<noteq> 0 then duration c else duration rb
                   | None \<Rightarrow> duration rb));
          endTimeMinutes = startTimeMinutes + currentDuration;
          minutesFromViewStart =
            mousePercentage mouseX contentWidth / 100 * real_of_int TOTAL_WINDOW_MINUTES;
          viewStartMinutes = getHours (viewStart st) * 60 + getMinutes (viewStart st);
          mouseTimeMinutes = real_of_int viewStartMinutes + minutesFromViewStart;
          snappedMouseMinutes = snap15 mouseTimeMinutes;
          newDuration0 =
            (if m = Right then snappedMouseMinutes - startTimeMinutes
             else endTimeMinutes - snappedMouseMinutes);
          newDuration = max MIN_DURATION (min MAX_DURATION newDuration0);
          newStartTime =
            (if m = Left then minutesToString (endTimeMinutes - newDuration) else currentTime')
      in st\<lparr>previewDuration := newDuration, previewTime := Some newStartTime\<rparr>)"

text \<open>
  The move branch of \<open>handleMouseMove\<close>, in three steps. First the instant under the
  pointer, less the grab offset: both percentages are clamped to the row, and
  \<open>new Date(viewStart.getTime() + minutesFromViewStart * 60000)\<close> is built.
\<close>

definition pointerDateTime :: "calendar_state \<Rightarrow> real \<Rightarrow> real \<Rightarrow> jsdate" where
  "pointerDateTime st mouseX contentWidth =
     (let adjustedPercentage =
            max 0 (min 100 (mousePercentage mouseX contentWidth - clickOffsetPercent st));
          minutesFromViewStart = adjustedPercentage / 100 * real_of_int TOTAL_WINDOW_MINUTES
      in newDate_ms (real_of_int (viewStart st) + minutesFromViewStart * 60000))"

text \<open>
  Then its minutes are rounded to a quarter hour:
  \<open>roundedMinutes = Math.round(minutes / 15) * 15\<close>, \<open>setMinutes(roundedMinutes)\<close>,
  \<open>setSeconds(0)\<close>.
\<close>

definition snapDateTime :: "jsdate \<Rightarrow> jsdate" where
  "snapDateTime newDateTime =
     (let minutes = getMinutes newDateTime;
          roundedMinutes = Math_round (real_of_int minutes / 15) * 15
      in setSeconds (setMinutes newDateTime roundedMinutes) 0)"

definition moveDateTime :: "calendar_state \<Rightarrow> real \<Rightarrow> real \<Rightarrow> jsdate" where
  "moveDateTime st mouseX contentWidth = snapDateTime (pointerDateTime st mouseX contentWidth)"

text \<open>Last, the preview is published: the row's table, the time as \<open>HH:mm\<close>, and the
  position of that time of day on the selected date.\<close>

definition moveMove :: "calendar_state \<Rightarrow> string \<Rightarrow> real \<Rightarrow> real \<Rightarrow> calendar_state" where
  "moveMove st targetTable mouseX contentWidth =
     (let newTime = format_HHmm (moveDateTime st mouseX contentWidth);
          snappedDateTime = setMinutes (setHours (selectedDate st) (fst newTime)) (snd newTime);
          diff = differenceInMinutes snappedDateTime (viewStart st);
          snappedLeftPercent = real_of_int diff / real_of_int TOTAL_WINDOW_MINUTES * 100
      in st\<lparr>previewPosition :=
              Some \<lparr>pv_table = targetTable, pv_time = newTime,
                    leftPercent = snappedLeftPercent\<rparr>\<rparr>)"

definition handleMouseMove :: "calendar_state \<Rightarrow> string \<Rightarrow> real \<Rightarrow> real \<Rightarrow> calendar_state" where
  "handleMouseMove st targetTable mouseX contentWidth =
     (case (resizeBooking st, resizeMode st) of
        (Some rb, Some m) \<Rightarrow> resizeMove st rb m mouseX contentWidth
      | _ \<Rightarrow>
        (case selectedBooking st of
           None \<Rightarrow> st
         | Some sb \<Rightarrow> moveMove st targetTable mouseX contentWidth))"

definition handleRowClick :: "calendar_state \<Rightarrow> string \<Rightarrow> calendar_state" where
  "handleRowClick st targetTable =
     (if \<not> isQuickEdit st then st
      else case (resizeBooking st, resizeMode st) of
        (Some rb, Some m) \<Rightarrow> confirmResize st rb
      | _ \<Rightarrow>
        (case (selectedBooking st, previewPosition st) of
           (Some sb, Some pp) \<Rightarrow>
             let existingChanges = map_of (pendingChanges st) (booking_id sb);
                 duration' = (case existingChanges of
                                Some c \<Rightarrow> if duration c \<noteq> 0 then duration c else duration sb
                              | None \<Rightarrow> duration sb)
             in clearSelectionState
                  (st\<lparr>pendingChanges :=
                         AList.update (booking_id sb)
                           \<lparr>time = pv_time pp, table = pv_table pp, duration = duration'\<rparr>
                           (pendingChanges st)\<rparr>)
         | _ \<Rightarrow> st))"

text \<open>The Escape key.\<close>

definition handleKeyDown :: "calendar_state \<Rightarrow> bool \<Rightarrow> calendar_state" where
  "handleKeyDown st isEscape =
     (if isEscape \<and> (selectedBooking st \<noteq> None \<or> resizeBooking st \<noteq> None)
      then clearSelectionState st else st)"

section \<open>The backend in demo mode (api.updateBooking)\<close>

text \<open>
  \<open>updateBooking(id, updates)\<close> over \<open>mockBookings\<close>: the first booking with the id is
  replaced by \<open>{ ...booking, ...updates }\<close>; without one the call throws
  \<open>"Booking not found"\<close>, which is \<open>None\<close>.
\<close>

fun updateBooking :: "nat \<Rightarrow> pending_change \<Rightarrow> booking list \<Rightarrow> booking list option" where
  "updateBooking i updates [] = None"
| "updateBooking i updates (b # bs) =
     (if booking_id b = i then Some (spread b updates # bs)
      else map_option ((#) b) (updateBooking i updates bs))"

text \<open>
  The calls of one \<open>Apply\<close> run against the backend in the order they were issued; a call
  that throws leaves the bookings as they were. The result records, per call, whether
  it succeeded.
\<close>

fun runCalls :: "(nat \<times> pending_change) list \<Rightarrow> booking list \<Rightarrow> (nat \<times> bool) list \<times> booking list" where
  "runCalls [] bs = ([], bs)"
| "runCalls ((i, updates) # cs) bs =
     (case updateBooking i updates bs of
        None \<Rightarrow> (let (rs, bs') = runCalls cs bs in ((i, False) # rs, bs'))
      | Some bs1 \<Rightarrow> (let (rs, bs') = runCalls cs bs1 in ((i, True) # rs, bs')))"

text \<open>
  The state after mounting: \<open>now\<close> is the clock at that moment, \<open>initialTime\<close> the optional
  prop, which, when present, becomes both the selected date and the current time.
\<close>

definition initialState :: "jsdate \<Rightarrow> jsdate option \<Rightarrow> calendar_state" where
  "initialState now initialTime =
     \<lparr>selectedDate = (case initialTime of Some t \<Rightarrow> t | None \<Rightarrow> now),
      currentTime = (case initialTime of Some t \<Rightarrow> t | None \<Rightarrow> now),
      isQuickEdit = False,
      pendingChanges = [],
      selectedBooking = None,
      clickOffsetPercent = 0,
      selectedBookingWidth = 0,
      previewPosition = None,
      resizeMode = None,
      resizeBooking = None,
      previewDuration = 0,
      previewTime = None\<rparr>"

section \<open>Events\<close>

text \<open>
  The user's actions on the calendar, each with the handler it runs. \<open>Apply\<close> also
  issues its calls; \<open>dispatch\<close> keeps the state it leaves.
\<close>

datatype event =
    ToggleQuickEdit
  | CancelQuickEdit
  | ApplyQuickEdit
  | ArrowClick booking side
  | BookingClick booking real real
  | MouseMove string real real
  | RowClick string
  | KeyDown bool

fun dispatch :: "calendar_state \<Rightarrow> event \<Rightarrow> calendar_state" where
  "dispatch st ToggleQuickEdit = toggleQuickEdit st"
| "dispatch st CancelQuickEdit = handleCancelQuickEdit st"
| "dispatch st ApplyQuickEdit = snd (handleApplyQuickEdit st)"
| "dispatch st (ArrowClick b sd) = handleArrowClick st b sd"
| "dispatch st (BookingClick b offsetX width) = handleBookingClick st b offsetX width"
| "dispatch st (MouseMove targetTable mouseX contentWidth) =
     handleMouseMove st targetTable mouseX contentWidth"
| "dispatch st (RowClick targetTable) = handleRowClick st targetTable"
| "dispatch st (KeyDown isEscape) = handleKeyDown st isEscape"

section \<open>Properties: availability\<close>

lemma hasConflict_iff:
  "hasConflict bookings d tbl s e \<longleftrightarrow>
     (\<exists>b\<in>set bookings. date b = d \<and> table b = tbl \<and>
        s < toMinutes (time b) + duration b \<and> e > toMinutes (time b))"
  by (auto simp: hasConflict_def tableBookings_def overlaps_def list_ex_iff)

lemma availableTables_iff:
  "tn \<in> set (availableTables tables bookings d t dur g) \<longleftrightarrow>
     (\<exists>tb\<in>set tables. table_number tb = tn \<and> is_active tb \<and> capacityFilter g tb \<and>
        \<not> hasConflict bookings d tn (toMinutes t) (toMinutes t + dur))"
  by (auto simp: availableTables_def conflictFilter_def Let_def)

lemma cmp_le_iff:
  "localeCompare_numeric a b \<le> 0 \<longleftrightarrow> label_key a \<le> label_key b"
  by (auto simp: localeCompare_numeric_def)

lemma insort_cmp_key:
  "insort_cmp (\<lambda>a b. localeCompare_numeric (f a) (f b)) x ys = insort_key (\<lambda>a. label_key (f a)) x ys"
  by (induction ys) (simp_all add: cmp_le_iff)

lemma sort_cmp_key:
  "sort_cmp (\<lambda>a b. localeCompare_numeric (f a) (f b)) xs = sort_key (\<lambda>a. label_key (f a)) xs"
  by (induction xs) (simp_all add: sort_cmp_def insort_cmp_key)

lemma eligibleTables_sort_key:
  "eligibleTables tablesData guests =
     sort_key (\<lambda>t. label_key (table_number t))
       (filter (\<lambda>t. is_active t \<and> max_capacity t \<ge> guests) tablesData)"
  by (simp add: eligibleTables_def sort_cmp_key)

lemma sorted_eligibleTables:
  "sorted (map (\<lambda>t. label_key (table_number t)) (eligibleTables tablesData guests))"
  by (simp add: eligibleTables_sort_key)

lemma set_eligibleTables:
  "set (eligibleTables tablesData guests) = {t \<in> set tablesData. is_active t \<and> max_capacity t \<ge> guests}"
  by (simp add: eligibleTables_sort_key)

lemma firstFree_find:
  "firstFree bookings d s e ts =
     map_option table_number (find (\<lambda>t. \<not> hasConflict bookings d (table_number t) s e) ts)"
  by (induction ts) simp_all

lemma firstFree_None_iff:
  "firstFree bookings d s e ts = None \<longleftrightarrow>
     (\<forall>t\<in>set ts. hasConflict bookings d (table_number t) s e)"
  by (induction ts) simp_all

lemma firstFree_Some_iff:
  "firstFree bookings d s e ts = Some n \<longleftrightarrow>
     (\<exists>i<length ts. table_number (ts ! i) = n \<and> \<not> hasConflict bookings d n s e \<and>
        (\<forall>j<i. hasConflict bookings d (table_number (ts ! j)) s e))"
  unfolding firstFree_find 
  by (auto simp: find_Some_iff)

text \<open>
  Claim C1, as stated: the check answers unavailable exactly when some booking of the same
  table and date overlaps the requested interval. For table 4 of the demo data and a
  party of 7, for an inactive table and for a label no table carries, \<open>checkAvailability\<close>
  answers unavailable although there is no booking at all: its answer is
  \<open>!hasConflict && canAccommodate\<close>.
\<close>

theorem availability_without_overlap_counterexample:
  "checkAvailability 90 7 mockTables [] (18, 0) 19875 (Some ''4'') = Available False
   \<and> checkAvailability 90 2
        [\<lparr>table_number = ''4'', min_capacity = 2, max_capacity = 6, is_active = False\<rparr>]
        [] (18, 0) 19875 (Some ''4'') = Available False
   \<and> checkAvailability 90 2 mockTables [] (18, 0) 19875 (Some ''9'') = Available False
   \<and> hasConflict [] 19875 ''4'' (toMinutes (18, 0)) (toMinutes (18, 0) + 90) = False
   \<and> ''4'' \<notin> set (availableTables mockTables [] 19875 (18, 0) 90 7)"
  by code_simp

text \<open>
  Claim C1, amended. The conflict test between a requested interval \<open>[s, e)\<close> and a
  booking's interval \<open>[s', e')\<close> is \<open>s < e' \<and> e > s'\<close>; intervals that only touch (the booking
  starts where the request ends, or ends where the request starts) do not conflict. A
  conflict is reported exactly when some booking of the same table and date overlaps
  \<open>[time, time + duration)\<close> under this test: the conflict filter of \<open>availableTables\<close>
  returns false exactly then, and for a table that passes the activity and capacity
  check, \<open>checkAvailability\<close> answers unavailable exactly then. In general a table is
  available exactly when it passes that check and no such booking overlaps.
\<close>

theorem availability_conflict_rule:
  "(overlaps s e s' e' \<longleftrightarrow> s < e' \<and> e > s')
   \<and> \<not> overlaps s e e e'
   \<and> \<not> overlaps s e s' s
   \<and> (hasConflict bookings d tbl (toMinutes t) (toMinutes t + dur) \<longleftrightarrow>
        (\<exists>b\<in>set bookings. date b = d \<and> table b = tbl \<and>
           overlaps (toMinutes t) (toMinutes t + dur)
             (toMinutes (time b)) (toMinutes (time b) + duration b)))
   \<and> checkAvailability dur g tablesData bookings t d (Some (c # cs)) =
        Available (canAccommodate tablesData g (c # cs) \<and>
          \<not> (\<exists>b\<in>set bookings. date b = d \<and> table b = c # cs \<and>
                toMinutes t < toMinutes (time b) + duration b \<and>
                toMinutes t + dur > toMinutes (time b)))
   \<and> (tn \<in> set (availableTables tablesData bookings d t dur g) \<longleftrightarrow>
        (\<exists>tb\<in>set tablesData. table_number tb = tn \<and> is_active tb \<and> capacityFilter g tb)
        \<and> \<not> (\<exists>b\<in>set bookings. date b = d \<and> table b = tn \<and>
                toMinutes t < toMinutes (time b) + duration b \<and>
                toMinutes t + dur > toMinutes (time b)))
   \<and> (conflictFilter bookings d (toMinutes t) (toMinutes t + dur) tb = False \<longleftrightarrow>
        (\<exists>b\<in>set bookings. date b = d \<and> table b = table_number tb \<and>
           toMinutes t < toMinutes (time b) + duration b \<and>
           toMinutes t + dur > toMinutes (time b)))
   \<and> (canAccommodate tablesData g (c # cs) \<longrightarrow>
        (checkAvailability dur g tablesData bookings t d (Some (c # cs)) = Available False \<longleftrightarrow>
           (\<exists>b\<in>set bookings. date b = d \<and> table b = c # cs \<and>
              toMinutes t < toMinutes (time b) + duration b \<and>
              toMinutes t + dur > toMinutes (time b))))"
proof -
  have 1: "overlaps s e s' e' \<longleftrightarrow> s < e' \<and> e > s'"
    and 2: "\<not> overlaps s e e e'" and 3: "\<not> overlaps s e s' s"
    by (simp_all add: overlaps_def)
  have 4: "hasConflict bookings d tbl (toMinutes t) (toMinutes t + dur) \<longleftrightarrow>
        (\<exists>b\<in>set bookings. date b = d \<and> table b = tbl \<and>
           overlaps (toMinutes t) (toMinutes t + dur)
             (toMinutes (time b)) (toMinutes (time b) + duration b))"
    by (simp add: hasConflict_iff overlaps_def)
  have 5: "checkAvailability dur g tablesData bookings t d (Some (c # cs)) =
        Available (canAccommodate tablesData g (c # cs) \<and>
          \<not> (\<exists>b\<in>set bookings. date b = d \<and> table b = c # cs \<and>
                toMinutes t < toMinutes (time b) + duration b \<and>
                toMinutes t + dur > toMinutes (time b)))"
    by (auto simp: checkAvailability_def Let_def hasConflict_iff)
  have 6: "tn \<in> set (availableTables tablesData bookings d t dur g) \<longleftrightarrow>
        (\<exists>tb\<in>set tablesData. table_number tb = tn \<and> is_active tb \<and> capacityFilter g tb)
        \<and> \<not> (\<exists>b\<in>set bookings. date b = d \<and> table b = tn \<and>
                toMinutes t < toMinutes (time b) + duration b \<and>
                toMinutes t + dur > toMinutes (time b))"
    unfolding availableTables_iff hasConflict_iff by blast
  have 7: "conflictFilter bookings d (toMinutes t) (toMinutes t + dur) tb = False \<longleftrightarrow>
        (\<exists>b\<in>set bookings. date b = d \<and> table b = table_number tb \<and>
           toMinutes t < toMinutes (time b) + duration b \<and>
           toMinutes t + dur > toMinutes (time b))"
    unfolding conflictFilter_def hasConflict_iff by blast
  have 8: "canAccommodate tablesData g (c # cs) \<longrightarrow>
        (checkAvailability dur g tablesData bookings t d (Some (c # cs)) = Available False \<longleftrightarrow>
           (\<exists>b\<in>set bookings. date b = d \<and> table b = c # cs \<and>
              toMinutes t < toMinutes (time b) + duration b \<and>
              toMinutes t + dur > toMinutes (time b)))"
    unfolding 5 availability.inject by blast
  show ?thesis
    by (intro conjI 1 2 3 4 5 6 7 8)
qed

text \<open>The theorem at a booking of table 4 from 18:00 to 19:30: a request from 19:30 touches
  it and is available, a request from 19:15 overlaps it and is not.\<close>

theorem availability_conflict_rule_witness:
  "checkAvailability 90 2
     [\<lparr>table_number = ''4'', min_capacity = 2, max_capacity = 6, is_active = True\<rparr>]
     [\<lparr>time = (18, 0), table = ''4'', duration = 90, booking_id = 1, date = 19875\<rparr>]
     (19, 30) 19875 (Some ''4'') = Available True
   \<and> checkAvailability 90 2
     [\<lparr>table_number = ''4'', min_capacity = 2, max_capacity = 6, is_active = True\<rparr>]
     [\<lparr>time = (18, 0), table = ''4'', duration = 90, booking_id = 1, date = 19875\<rparr>]
     (19, 15) 19875 (Some ''4'') = Available False"
  using availability_conflict_rule [of 0 0 0 0 
      "[\<lparr>time = (18, 0), table = ''4'', duration = 90, booking_id = 1, date = 19875\<rparr>]"
      19875 "''4''" "(19, 30)" 90 2
      "[\<lparr>table_number = ''4'', min_capacity = 2, max_capacity = 6, is_active = True\<rparr>]"
      "CHR ''4''" "[]" "''4''"]
    availability_conflict_rule [of 0 0 0 0 
      "[\<lparr>time = (18, 0), table = ''4'', duration = 90, booking_id = 1, date = 19875\<rparr>]"
      19875 "''4''" "(19, 15)" 90 2
      "[\<lparr>table_number = ''4'', min_capacity = 2, max_capacity = 6, is_active = True\<rparr>]"
      "CHR ''4''" "[]" "''4''"]
  by (simp add: canAccommodate_def toMinutes_def)

text \<open>
  Claim C4. The claim: a table is reported available only if it is active and, for a
  nonzero party size, \<open>min_capacity \<le> partySize \<le> max_capacity\<close>. \<open>availableTables\<close>
  does this (\<open>availableTables_capacity\<close> below). \<open>checkAvailability\<close> compares only
  \<open>max_capacity\<close>: for the demo data's table 4 (capacity 4 to 6) and a party of 2 it
  answers available, while \<open>availableTables\<close> leaves the table out.
\<close>

theorem checkAvailability_ignores_min_capacity:
  "checkAvailability 90 2 mockTables [] (18, 0) 19875 (Some ''4'') = Available True
   \<and> find (\<lambda>t. table_number t = ''4'') mockTables
       = Some \<lparr>table_number = ''4'', min_capacity = 4, max_capacity = 6, is_active = True\<rparr>
   \<and> \<not> ((4::int) \<le> 2 \<and> (2::int) \<le> 6)
   \<and> ''4'' \<notin> set (availableTables mockTables [] 19875 (18, 0) 90 2)
   \<and> availableTables mockTables [] 19875 (18, 0) 90 2 = [''1'', ''2'', ''3'']"
  by code_simp

lemma availableTables_capacity:
  "tn \<in> set (availableTables tablesData bookings d t dur g) \<Longrightarrow>
     \<exists>tb\<in>set tablesData. table_number tb = tn \<and> is_active tb \<and>
        (g \<noteq> 0 \<longrightarrow> min_capacity tb \<le> g \<and> g \<le> max_capacity tb)"
  by (auto simp: availableTables_iff capacityFilter_def split: if_splits)

lemma checkAvailability_capacity:
  "checkAvailability dur g tablesData bookings t d (Some (c # cs)) = Available True \<Longrightarrow>
     \<exists>tb\<in>set tablesData. table_number tb = c # cs \<and> is_active tb \<and> g \<le> max_capacity tb"
  by (auto simp: checkAvailability_def canAccommodate_def Let_def find_Some_iff split: option.splits)

text \<open>
  Without a table argument, \<open>checkAvailability\<close> scans the active tables whose
  \<open>max_capacity\<close> admits the party, ordered by label with digit runs compared as numbers
  (so \<open>"2"\<close> precedes \<open>"10"\<close>), and returns the label of the first one without a
  conflicting booking, or null when every one has a conflict. For tables labelled
  \<open>"2", "10", "1"\<close> the scan order is \<open>"1", "2", "10"\<close>.
\<close>

lemma checkAvailability_scan:
  "sorted (map (\<lambda>x. label_key (table_number x)) (eligibleTables tablesData guests))
   \<and> set (eligibleTables tablesData guests) =
       {x \<in> set tablesData. is_active x \<and> max_capacity x \<ge> guests}
   \<and> label_key ''2'' < label_key ''10''
   \<and> (checkAvailability dur guests tablesData bookings t d None = FirstTable None \<longleftrightarrow>
        (\<forall>x\<in>set (eligibleTables tablesData guests).
           hasConflict bookings d (table_number x) (toMinutes t) (toMinutes t + dur)))
   \<and> (checkAvailability dur guests tablesData bookings t d None = FirstTable (Some n) \<longleftrightarrow>
        (\<exists>i<length (eligibleTables tablesData guests).
           table_number (eligibleTables tablesData guests ! i) = n
           \<and> \<not> hasConflict bookings d n (toMinutes t) (toMinutes t + dur)
           \<and> (\<forall>j<i. hasConflict bookings d (table_number (eligibleTables tablesData guests ! j))
                      (toMinutes t) (toMinutes t + dur))))
   \<and> map table_number (eligibleTables
        [\<lparr>table_number = ''2'', min_capacity = 2, max_capacity = 4, is_active = True\<rparr>,
         \<lparr>table_number = ''10'', min_capacity = 2, max_capacity = 4, is_active = True\<rparr>,
         \<lparr>table_number = ''1'', min_capacity = 2, max_capacity = 4, is_active = True\<rparr>] 2)
       = [''1'', ''2'', ''10'']"
proof -
  have a: "label_key ''2'' < label_key ''10''"
    by (simp add: label_key_def is_digit_def digit_val_def)
  have b: "checkAvailability dur guests tablesData bookings t d None =
        FirstTable (firstFree bookings d (toMinutes t) (toMinutes t + dur)
                      (eligibleTables tablesData guests))"
    by (simp add: checkAvailability_def Let_def)
  have c: "map table_number (eligibleTables
        [\<lparr>table_number = ''2'', min_capacity = 2, max_capacity = 4, is_active = True\<rparr>,
         \<lparr>table_number = ''10'', min_capacity = 2, max_capacity = 4, is_active = True\<rparr>,
         \<lparr>table_number = ''1'', min_capacity = 2, max_capacity = 4, is_active = True\<rparr>] 2)
       = [''1'', ''2'', ''10'']"
    by (simp add: eligibleTables_def sort_cmp_def localeCompare_numeric_def label_key_def
          is_digit_def digit_val_def)
  show ?thesis
    unfolding b availability.inject firstFree_None_iff firstFree_Some_iff
    using a c sorted_eligibleTables [of tablesData guests]
      set_eligibleTables [of tablesData guests]
    by blast
qed

text \<open>With table 1 taken at the requested time the scan answers table 2, not table 10;
  with every active table taken it answers null.\<close>

lemma checkAvailability_scan_example:
  "checkAvailability 90 2
     [\<lparr>table_number = ''2'', min_capacity = 2, max_capacity = 4, is_active = True\<rparr>,
      \<lparr>table_number = ''10'', min_capacity = 2, max_capacity = 4, is_active = True\<rparr>,
      \<lparr>table_number = ''1'', min_capacity = 2, max_capacity = 4, is_active = True\<rparr>]
     [\<lparr>time = (18, 0), table = ''1'', duration = 90, booking_id = 1, date = 19875\<rparr>]
     (18, 30) 19875 None = FirstTable (Some ''2'')
   \<and> checkAvailability 90 2
     [\<lparr>table_number = ''2'', min_capacity = 2, max_capacity = 4, is_active = True\<rparr>,
      \<lparr>table_number = ''10'', min_capacity = 2, max_capacity = 4, is_active = True\<rparr>,
      \<lparr>table_number = ''1'', min_capacity = 2, max_capacity = 4, is_active = False\<rparr>]
     [\<lparr>time = (18, 0), table = ''2'', duration = 90, booking_id = 1, date = 19875\<rparr>,
      \<lparr>time = (19, 0), table = ''10'', duration = 60, booking_id = 2, date = 19875\<rparr>]
     (18, 30) 19875 None = FirstTable None"
  using checkAvailability_scan [of
     "[\<lparr>table_number = ''2'', min_capacity = 2, max_capacity = 4, is_active = True\<rparr>,
      \<lparr>table_number = ''10'', min_capacity = 2, max_capacity = 4, is_active = True\<rparr>,
      \<lparr>table_number = ''1'', min_capacity = 2, max_capacity = 4, is_active = True\<rparr>]" 2 90 
     "[\<lparr>time = (18, 0), table = ''1'', duration = 90, booking_id = 1, date = 19875\<rparr>]"
     "(18, 30)" 19875 "''2''"]
  by (simp add: checkAvailability_def eligibleTables_def sort_cmp_def localeCompare_numeric_def
        label_key_def is_digit_def digit_val_def hasConflict_def tableBookings_def overlaps_def
        toMinutes_def)

text \<open>
  Claim C9. The claim: the scan goes in numeric-aware label order and returns the first
  table passing the activity and capacity rule and the no-overlap rule, or null. The
  order and the no-overlap rule are as claimed (\<open>checkAvailability_scan\<close> above), but the
  capacity rule of the scan is \<open>max_capacity >= guests\<close> alone. For a party of 5 on the
  demo tables, with tables 4 and 5 taken, the scan returns table 6, whose capacity is 6 to
  8; no table passes both rules, and \<open>availableTables\<close> offers none.
\<close>

theorem findFirst_returns_table_below_min_capacity:
  "checkAvailability 90 5 mockTables
     [\<lparr>time = (18, 0), table = ''4'', duration = 90, booking_id = 1, date = 19875\<rparr>,
      \<lparr>time = (18, 0), table = ''5'', duration = 90, booking_id = 2, date = 19875\<rparr>]
     (18, 0) 19875 None = FirstTable (Some ''6'')
   \<and> find (\<lambda>t. table_number t = ''6'') mockTables
       = Some \<lparr>table_number = ''6'', min_capacity = 6, max_capacity = 8, is_active = True\<rparr>
   \<and> \<not> ((6::int) \<le> 5 \<and> (5::int) \<le> 8)
   \<and> availableTables mockTables
     [\<lparr>time = (18, 0), table = ''4'', duration = 90, booking_id = 1, date = 19875\<rparr>,
      \<lparr>time = (18, 0), table = ''5'', duration = 90, booking_id = 2, date = 19875\<rparr>]
     19875 (18, 0) 90 5 = []"
  by code_simp

section \<open>Properties: staging and applying edits\<close>

lemma fold_update_map_of:
  "map_of (fold (\<lambda>(i, c). AList.update i c) staged al) = map_of al ++ map_of (rev staged)"
proof (induction staged arbitrary: al)
  case Nil
  then show ?case by simp
next
  case (Cons x xs)
  obtain i c where x: "x = (i, c)" by (cases x)
  show ?case
    by (rule ext) (simp add: x Cons.IH update_conv' map_add_def split: option.splits)
qed

lemma fold_update_distinct:
  "distinct (map fst al) \<Longrightarrow> distinct (map fst (fold (\<lambda>(i, c). AList.update i c) staged al))"
  by (induction staged arbitrary: al) (auto simp: distinct_update)

lemma fold_update_keys:
  "fst ` set (fold (\<lambda>(i, c). AList.update i c) staged al) = fst ` set al \<union> fst ` set staged"
proof -
  have "dom (map_of (fold (\<lambda>(i, c). AList.update i c) staged al)) =
        dom (map_of al) \<union> dom (map_of (rev staged))"
    by (simp add: fold_update_map_of Un_commute)
  then show ?thesis
    by (simp add: dom_map_of_conv_image_fst)
qed

lemma pendingChanges_clearSelectionState [simp]:
  "pendingChanges (clearSelectionState st) = pendingChanges st"
  by (simp add: clearSelectionState_def)

lemma isQuickEdit_clearSelectionState [simp]:
  "isQuickEdit (clearSelectionState st) = isQuickEdit st"
  by (simp add: clearSelectionState_def)

lemma pendingChanges_confirmResize:
  "\<exists>i c. pendingChanges (confirmResize st rb) = AList.update i c (pendingChanges st)"
  by (simp add: confirmResize_def Let_def) blast

lemma pendingChanges_enterResize [simp]:
  "pendingChanges (enterResize st b sd) = pendingChanges st"
  by (simp add: enterResize_def Let_def)

lemma pendingChanges_resizeMove [simp]:
  "pendingChanges (resizeMove st rb m mouseX contentWidth) = pendingChanges st"
  by (simp add: resizeMove_def Let_def)

lemma pendingChanges_moveMove [simp]:
  "pendingChanges (moveMove st targetTable mouseX contentWidth) = pendingChanges st"
  by (simp add: moveMove_def Let_def)

lemma pendingChanges_handleArrowClick:
  "pendingChanges (handleArrowClick st b sd) = pendingChanges st
   \<or> (\<exists>i c. pendingChanges (handleArrowClick st b sd) = AList.update i c (pendingChanges st))"
  using pendingChanges_confirmResize [of st b]
  by (simp add: handleArrowClick_def)

lemma pendingChanges_handleBookingClick:
  "pendingChanges (handleBookingClick st b offsetX width) = pendingChanges st
   \<or> (\<exists>i c. pendingChanges (handleBookingClick st b offsetX width) =
          AList.update i c (pendingChanges st))"
proof (cases "resizeBooking st")
  case None
  then show ?thesis by (simp add: handleBookingClick_def Let_def)
next
  case (Some rb)
  then show ?thesis
    using pendingChanges_confirmResize [of st rb]
    by (cases "resizeMode st") (simp_all add: handleBookingClick_def Let_def)
qed

lemma pendingChanges_handleMouseMove [simp]:
  "pendingChanges (handleMouseMove st targetTable mouseX contentWidth) = pendingChanges st"
  by (simp add: handleMouseMove_def split: option.splits)

lemma pendingChanges_handleRowClick:
  "pendingChanges (handleRowClick st targetTable) = pendingChanges st
   \<or> (\<exists>i c. pendingChanges (handleRowClick st targetTable) =
          AList.update i c (pendingChanges st))"
proof (cases "\<exists>rb m. resizeBooking st = Some rb \<and> resizeMode st = Some m")
  case True
  then obtain rb m where "resizeBooking st = Some rb" "resizeMode st = Some m" by blast
  then show ?thesis
    using pendingChanges_confirmResize [of st rb] by (simp add: handleRowClick_def)
next
  case False
  then have nr: "(case (resizeBooking st, resizeMode st) of
                    (Some rb, Some m) \<Rightarrow> x rb | _ \<Rightarrow> y) = y" for x :: "booking \<Rightarrow> calendar_state" and y
    by (auto split: option.splits)
  show ?thesis
    unfolding handleRowClick_def nr
    by (simp add: Let_def split: option.splits) blast
qed

lemma pendingChanges_dispatch:
  "pendingChanges (dispatch st e) = pendingChanges st
   \<or> pendingChanges (dispatch st e) = []
   \<or> (\<exists>i c. pendingChanges (dispatch st e) = AList.update i c (pendingChanges st))"
proof (cases e)
  case (ArrowClick b sd)
  then show ?thesis using pendingChanges_handleArrowClick [of st b sd] by auto
next
  case (BookingClick b x w)
  then show ?thesis using pendingChanges_handleBookingClick [of st b x w] by auto
next
  case (RowClick tt)
  then show ?thesis using pendingChanges_handleRowClick [of st tt] by auto
qed (simp_all add: toggleQuickEdit_def handleCancelQuickEdit_def handleApplyQuickEdit_def
       handleKeyDown_def)

lemma reachable_pendingChanges_staged:
  "pendingChanges st0 = [] \<Longrightarrow>
     \<exists>staged. pendingChanges (foldl dispatch st0 evs) = fold (\<lambda>(i, c). AList.update i c) staged []"
proof (induction evs rule: rev_induct)
  case Nil
  then have "pendingChanges (foldl dispatch st0 []) = fold (\<lambda>(i, c). AList.update i c) [] []"
    by simp
  then show ?case by blast
next
  case (snoc e evs)
  then obtain staged where s:
    "pendingChanges (foldl dispatch st0 evs) = fold (\<lambda>(i, c). AList.update i c) staged []"
    by blast
  let ?st = "foldl dispatch st0 evs"
  consider "pendingChanges (dispatch ?st e) = pendingChanges ?st"
    | "pendingChanges (dispatch ?st e) = []"
    | i c where "pendingChanges (dispatch ?st e) = AList.update i c (pendingChanges ?st)"
    using pendingChanges_dispatch [of ?st e] by blast
  then show ?case
  proof cases
    case 1
    then show ?thesis using s by auto
  next
    case 2
    then have "pendingChanges (foldl dispatch st0 (evs @ [e])) = fold (\<lambda>(i, c). AList.update i c) [] []"
      by simp
    then show ?thesis by blast
  next
    case 3
    then have "pendingChanges (foldl dispatch st0 (evs @ [e])) =
        fold (\<lambda>(i, c). AList.update i c) (staged @ [(i, c)]) []"
      using s by simp
    then show ?thesis by blast
  qed
qed

text \<open>
  Claim C3. When the pending set is what a sequence of stagings (each a \<open>Map.set\<close> under
  the booking's id) has built, \<open>Apply\<close> issues one call per distinct staged id and no
  other call, each carrying the value staged last for its id; then the pending set is
  empty and edit mode is off. By \<open>reachable_pendingChanges_staged\<close> every pending set the
  handlers can produce is built this way.
\<close>

theorem applyAll_one_update_per_id:
  assumes "pendingChanges st = fold (\<lambda>(i, c). AList.update i c) staged []"
  shows "distinct (map fst (fst (handleApplyQuickEdit st)))
       \<and> fst ` set (fst (handleApplyQuickEdit st)) = fst ` set staged
       \<and> (\<forall>i c. (i, c) \<in> set (fst (handleApplyQuickEdit st)) \<longleftrightarrow> map_of (rev staged) i = Some c)
       \<and> pendingChanges (snd (handleApplyQuickEdit st)) = []
       \<and> \<not> isQuickEdit (snd (handleApplyQuickEdit st))"
proof -
  have calls: "fst (handleApplyQuickEdit st) = pendingChanges st"
    by (simp add: handleApplyQuickEdit_def)
  have d: "distinct (map fst (pendingChanges st))"
    unfolding assms by (rule fold_update_distinct) simp
  have k: "fst ` set (pendingChanges st) = fst ` set staged"
    unfolding assms by (simp add: fold_update_keys)
  have m: "map_of (pendingChanges st) = map_of (rev staged)"
    unfolding assms by (simp add: fold_update_map_of)
  have v: "\<forall>i c. (i, c) \<in> set (pendingChanges st) \<longleftrightarrow> map_of (rev staged) i = Some c"
    using map_of_eq_Some_iff [OF d] m by simp
  have r: "pendingChanges (snd (handleApplyQuickEdit st)) = []"
     "\<not> isQuickEdit (snd (handleApplyQuickEdit st))"
    by (simp_all add: handleApplyQuickEdit_def)
  show ?thesis
    unfolding calls using d k v r by blast
qed

text \<open>Booking 1 is moved, booking 2 is moved, booking 1 is moved again: two calls, the one
  for booking 1 carrying the second move.\<close>

theorem applyAll_one_update_per_id_witness:
  "pendingChanges (foldl dispatch (initialState 1717265220000 None)
       [ToggleQuickEdit,
        BookingClick \<lparr>time = (18, 0), table = ''4'', duration = 90, booking_id = 1, date = 19875\<rparr> 50 100,
        MouseMove ''2'' 300 1000, RowClick ''2'',
        BookingClick \<lparr>time = (19, 0), table = ''2'', duration = 60, booking_id = 2, date = 19875\<rparr> 50 100,
        MouseMove ''3'' 500 1000, RowClick ''3'',
        BookingClick \<lparr>time = (18, 0), table = ''4'', duration = 90, booking_id = 1, date = 19875\<rparr> 50 100,
        MouseMove ''5'' 700 1000, RowClick ''5''])
     = fold (\<lambda>(i, c). AList.update i c)
         [(1, \<lparr>time = (18, 30), table = ''2'', duration = 90\<rparr>),
          (2, \<lparr>time = (20, 0), table = ''3'', duration = 60\<rparr>),
          (1, \<lparr>time = (21, 15), table = ''5'', duration = 90\<rparr>)] []
   \<and> fst (handleApplyQuickEdit (foldl dispatch (initialState 1717265220000 None)
       [ToggleQuickEdit,
        BookingClick \<lparr>time = (18, 0), table = ''4'', duration = 90, booking_id = 1, date = 19875\<rparr> 50 100,
        MouseMove ''2'' 300 1000, RowClick ''2'',
        BookingClick \<lparr>time = (19, 0), table = ''2'', duration = 60, booking_id = 2, date = 19875\<rparr> 50 100,
        MouseMove ''3'' 500 1000, RowClick ''3'',
        BookingClick \<lparr>time = (18, 0), table = ''4'', duration = 90, booking_id = 1, date = 19875\<rparr> 50 100,
        MouseMove ''5'' 700 1000, RowClick ''5'']))
     = [(1, \<lparr>time = (21, 15), table = ''5'', duration = 90\<rparr>),
        (2, \<lparr>time = (20, 0), table = ''3'', duration = 60\<rparr>)]
   \<and> pendingChanges (snd (handleApplyQuickEdit (foldl dispatch (initialState 1717265220000 None)
       [ToggleQuickEdit,
        BookingClick \<lparr>time = (18, 0), table = ''4'', duration = 90, booking_id = 1, date = 19875\<rparr> 50 100,
        MouseMove ''2'' 300 1000, RowClick ''2'',
        BookingClick \<lparr>time = (19, 0), table = ''2'', duration = 60, booking_id = 2, date = 19875\<rparr> 50 100,
        MouseMove ''3'' 500 1000, RowClick ''3'',
        BookingClick \<lparr>time = (18, 0), table = ''4'', duration = 90, booking_id = 1, date = 19875\<rparr> 50 100,
        MouseMove ''5'' 700 1000, RowClick ''5'']))) = []"
proof -
  let ?st = "foldl dispatch (initialState 1717265220000 None)
       [ToggleQuickEdit,
        BookingClick \<lparr>time = (18, 0), table = ''4'', duration = 90, booking_id = 1, date = 19875\<rparr> 50 100,
        MouseMove ''2'' 300 1000, RowClick ''2'',
        BookingClick \<lparr>time = (19, 0), table = ''2'', duration = 60, booking_id = 2, date = 19875\<rparr> 50 100,
        MouseMove ''3'' 500 1000, RowClick ''3'',
        BookingClick \<lparr>time = (18, 0), table = ''4'', duration = 90, booking_id = 1, date = 19875\<rparr> 50 100,
        MouseMove ''5'' 700 1000, RowClick ''5'']"
  have h: "pendingChanges ?st = fold (\<lambda>(i, c). AList.update i c)
         [(1, \<lparr>time = (18, 30), table = ''2'', duration = 90\<rparr>),
          (2, \<lparr>time = (20, 0), table = ''3'', duration = 60\<rparr>),
          (1, \<lparr>time = (21, 15), table = ''5'', duration = 90\<rparr>)] []"
    by code_simp
  have e: "fst (handleApplyQuickEdit ?st)
     = [(1, \<lparr>time = (21, 15), table = ''5'', duration = 90\<rparr>),
        (2, \<lparr>time = (20, 0), table = ''3'', duration = 60\<rparr>)]"
    by code_simp
  from applyAll_one_update_per_id [OF h] have "pendingChanges (snd (handleApplyQuickEdit ?st)) = []"
    by blast
  with h e show ?thesis by blast
qed

text \<open>
  Claim C5, as stated: an entry whose update fails stays in the pending set. Here the
  update for booking 7 fails (the backend has no such booking) and the pending set is
  empty afterwards.
\<close>

theorem applyAll_failed_entry_counterexample:
  "fst (runCalls (fst (handleApplyQuickEdit
          ((initialState 1717265220000 None)
             \<lparr>isQuickEdit := True,
              pendingChanges := [(7, \<lparr>time = (19, 0), table = ''2'', duration = 90\<rparr>)]\<rparr>)))
        [\<lparr>time = (18, 0), table = ''4'', duration = 90, booking_id = 1, date = 19875\<rparr>])
     = [(7, False)]
   \<and> map_of (pendingChanges (snd (handleApplyQuickEdit
          ((initialState 1717265220000 None)
             \<lparr>isQuickEdit := True,
              pendingChanges := [(7, \<lparr>time = (19, 0), table = ''2'', duration = 90\<rparr>)]\<rparr>)))) 7
     = None"
  by code_simp

lemma map_fst_runCalls:
  "map fst (fst (runCalls calls bs)) = map fst calls"
  by (induction calls bs rule: runCalls.induct) (auto split: option.splits prod.splits)

text \<open>
  Claim C5, amended: \<open>Apply\<close> issues one call per staged entry and then clears the whole
  pending set, whatever the outcome of the calls; no entry stays staged, failed or not.
\<close>

theorem applyAll_clears_pending:
  "pendingChanges (snd (handleApplyQuickEdit st)) = []
   \<and> map fst (fst (runCalls (fst (handleApplyQuickEdit st)) bs)) = map fst (pendingChanges st)"
  by (simp add: map_fst_runCalls handleApplyQuickEdit_def)

section \<open>Properties: dates and the visible window\<close>

text \<open>The minute a date falls in, \<open>d div 60000\<close>, carries its day, hour and minute; the
  setters are read through it.\<close>

lemma getMinutes_mi: "getMinutes d = (d div 60000) mod 60"
  by (simp add: getMinutes_def)

lemma getHours_mi: "getHours d = ((d div 60000) div 60) mod 24"
proof -
  have "d div 3600000 = (d div 60000) div 60"
    using zdiv_zmult2_eq [of 60 d 60000] by simp
  then show ?thesis by (simp add: getHours_def)
qed


lemma mi_setMinutes: "setMinutes d m div 60000 = d div 60000 - (d div 60000) mod 60 + m"
proof -
  have "setMinutes d m = d + (m - (d div 60000) mod 60) * 60000"
    by (simp add: setMinutes_def getMinutes_def)
  then show ?thesis by simp
qed



lemma mi_newDate: "newDate day div 60000 = day * 1440"
  by (simp add: newDate_def)

lemma mi_setSeconds0: "setSeconds d 0 div 60000 = d div 60000"
proof -
  define r where "r = d mod 60000"
  define q where "q = d div 60000"
  have d: "d = q * 60000 + r" and r: "0 \<le> r" "r < 60000"
    by (simp_all add: q_def r_def)
  have s: "(d div 1000) mod 60 = r div 1000"
  proof -
    have "d div 1000 = q * 60 + r div 1000"
      unfolding d by (simp add: div_plus_div_distrib_dvd_left)
    moreover have "0 \<le> r div 1000" "r div 1000 < 60" using r by auto
    ultimately show ?thesis by simp
  qed
  have m: "r - (r div 1000) * 1000 = r mod 1000"
    by (simp add: minus_div_mult_eq_mod)
  have "setSeconds d 0 = r mod 1000 + q * 60000"
    unfolding m [symmetric] by (simp add: setSeconds_def getSeconds_def s) (simp add: d)
  moreover have "(r mod 1000 + q * 60000) div 60000 = q + (r mod 1000) div 60000"
    by (simp only: div_mult_self1)
  moreover have "0 \<le> r mod 1000" "r mod 1000 < 60000"
    using pos_mod_bound [of 1000 r] by simp_all
  ultimately show ?thesis
    by (simp add: q_def div_pos_pos_trivial)
qed

lemma tod_parts:
  fixes D H M :: int
  assumes "0 \<le> H" "H < 24" "0 \<le> M" "M < 60"
  shows "(1440 * D + 60 * H + M) div 1440 = D"
    and "((1440 * D + 60 * H + M) div 60) mod 24 = H"
    and "(1440 * D + 60 * H + M) mod 60 = M"
proof -
  let ?x = "1440 * D + 60 * H + M"
  show "?x div 1440 = D"
    using assms by (intro int_div_pos_eq [where r = "60 * H + M"]) simp_all
  have "?x div 60 = 24 * D + H"
    using assms by (intro int_div_pos_eq [where r = M]) simp_all
  moreover have "(24 * D + H) mod 24 = H"
    using assms by (intro int_mod_pos_eq [where q = D]) simp_all
  ultimately show "(?x div 60) mod 24 = H" by simp
  show "?x mod 60 = M"
    using assms by (intro int_mod_pos_eq [where q = "24 * D + H"]) simp_all
qed


lemma tod_range:
  fixes q :: int
  shows "0 \<le> (q div 60) mod 24" "(q div 60) mod 24 < 24" "0 \<le> q mod 60" "q mod 60 < 60"
  by simp_all









lemma getHours_range: "0 \<le> getHours d" "getHours d < 24"
  by (simp_all add: getHours_def)

lemma getMinutes_range: "0 \<le> getMinutes d" "getMinutes d < 60"
  by (simp_all add: getMinutes_def)

lemma TOTAL_WINDOW_MINUTES_420: "TOTAL_WINDOW_MINUTES = 420"
  by (simp add: TOTAL_WINDOW_MINUTES_def WINDOW_HOURS_PREV_def WINDOW_HOURS_NEXT_def)






section \<open>Properties: snapping\<close>

lemma Math_round_int_div15:
  "Math_round (real_of_int k / 15) = (2 * k + 15) div 30"
proof -
  have "real_of_int k / 15 + 1 / 2 = real_of_int (2 * k + 15) / real_of_int 30"
    by simp
  then show ?thesis
    unfolding Math_round_def by (simp only: floor_divide_of_int_eq)
qed

lemma round15_near:
  fixes k :: int
  shows "- 7 \<le> (2 * k + 15) div 30 * 15 - k" "(2 * k + 15) div 30 * 15 - k \<le> 7"
proof -
  define j r where "j = (2 * k + 15) div 30" and "r = (2 * k + 15) mod 30"
  have "2 * k + 15 = 30 * j + r" "0 \<le> r" "r < 30"
    by (simp_all add: j_def r_def)
  then have "- 7 \<le> j * 15 - k \<and> j * 15 - k \<le> 7"
    by presburger
  then show "- 7 \<le> (2 * k + 15) div 30 * 15 - k" "(2 * k + 15) div 30 * 15 - k \<le> 7"
    by (simp_all only: j_def)
qed

lemma mod60_const:
  fixes K c :: int
  shows "(60 * K + c) mod 60 = c mod 60"
  by simp

lemma round15_quarter:
  fixes K m e :: int
  assumes "m = 0 \<or> m = 15 \<or> m = 30 \<or> m = 45" "e = 0 \<or> e = 1"
  shows "(60 * K + m - e) - (60 * K + m - e) mod 60
           + (2 * ((60 * K + m - e) mod 60) + 15) div 30 * 15 = 60 * K + m"
proof -
  have a: "60 * K + m - e = 60 * K + (m - e)" by simp
  have b: "(60 * K + (m - e)) mod 60 = (m - e) mod 60"
    by (rule mod60_const)
  consider "m - e = 0" | "m - e = 15" | "m - e = 30" | "m - e = 45"
    | "m - e = - 1" | "m - e = 14" | "m - e = 29" | "m - e = 44"
    using assms by auto
  then have "(m - e) - (m - e) mod 60 + (2 * ((m - e) mod 60) + 15) div 30 * 15 = m"
  proof cases
    case 5
    then have "m = 0" "e = 1" using assms by auto
    with 5 show ?thesis by simp
  qed (use assms in auto)
  then show ?thesis
    unfolding a b by simp
qed

lemma snap15_near: "\<bar>real_of_int (snap15 x) - x\<bar> \<le> 15 / 2"
proof -
  define y where "y = x / 15 + 1 / 2"
  have "real_of_int \<lfloor>y\<rfloor> \<le> y" "y < real_of_int \<lfloor>y\<rfloor> + 1" by linarith+
  then have "real_of_int \<lfloor>y\<rfloor> * 15 - x \<le> 15 / 2" "- (15 / 2) < real_of_int \<lfloor>y\<rfloor> * 15 - x"
    by (simp_all add: y_def field_simps)
  then have "\<bar>real_of_int \<lfloor>y\<rfloor> * 15 - x\<bar> \<le> 15 / 2"
    by linarith
  then show ?thesis
    by (simp add: snap15_def Math_round_def y_def)
qed

lemma snap15_tie: "snap15 (15 * real_of_int k + 15 / 2) = 15 * (k + 1)"
proof -
  have "(15 * real_of_int k + 15 / 2) / 15 + 1 / 2 = real_of_int (k + 1)"
    by (simp add: field_simps)
  then show ?thesis
    unfolding snap15_def Math_round_def by (simp only: floor_of_int)
qed

lemma snap15_dvd: "15 dvd snap15 x"
  by (simp add: snap15_def)

lemma mousePercentage_range:
  "0 \<le> mousePercentage mouseX contentWidth" "mousePercentage mouseX contentWidth \<le> 100"
  by (simp_all add: mousePercentage_def)


lemma newDate_ms_of_int: "newDate_ms (real_of_int n) = n"
  by (simp add: newDate_ms_def)


lemma mi_snapDateTime:
  "snapDateTime n div 60000 =
     n div 60000 - (n div 60000) mod 60 + (2 * ((n div 60000) mod 60) + 15) div 30 * 15"
  by (simp add: snapDateTime_def Let_def mi_setSeconds0 mi_setMinutes Math_round_int_div15
      getMinutes_mi)

lemma snapDateTime_near:
  "- 7 \<le> snapDateTime n div 60000 - n div 60000"
  "snapDateTime n div 60000 - n div 60000 \<le> 7"
  using round15_near [of "(n div 60000) mod 60"] by (simp_all add: mi_snapDateTime)

lemma snapDateTime_quarter: "15 dvd snapDateTime n div 60000"
proof -
  have "n div 60000 - (n div 60000) mod 60 = 15 * (4 * ((n div 60000) div 60))"
    by (simp add: minus_mod_eq_mult_div)
  then have "snapDateTime n div 60000 =
      15 * (4 * ((n div 60000) div 60) + (2 * ((n div 60000) mod 60) + 15) div 30)"
    unfolding mi_snapDateTime by (simp only: distrib_left)
  then show ?thesis by (simp only: dvd_triv_left)
qed

lemma bookingDate_ms:
  "setMinutes (setHours (newDate day) h) m = (1440 * day + 60 * h + m) * 60000"
proof -
  have 1: "getHours (newDate day) = 0"
    by (simp add: getHours_def newDate_def)
  have 2: "setHours (newDate day) h = (1440 * day + 60 * h) * 60000"
    by (simp add: setHours_def 1) (simp add: newDate_def)
  have 3: "getMinutes ((1440 * day + 60 * h) * 60000) = 0"
    by (simp add: getMinutes_def)
  have "setMinutes ((1440 * day + 60 * h) * 60000) m =
      (1440 * day + 60 * h) * 60000 + (m - 0) * 60000"
    unfolding setMinutes_def 3 ..
  then show ?thesis
    unfolding 2 by (simp add: algebra_simps)
qed

text \<open>
  Claim C8, as stated: a tie rounds toward the even multiple of 15. In a left resize of the
  booking of table 4 at 18:00 for 90 minutes, with the window starting at 17:15 and the
  pointer at one eighth of the row, the pointer's time is 18:07.5, half way between
  18:00 (\<open>72 * 15\<close>) and 18:15 (\<open>73 * 15\<close>); the start snaps to 18:15, the odd multiple.
\<close>

theorem snapping_tie_counterexample:
  "format_HHmm (viewStart (initialState 1717265700000 None)) = (17, 15)
   \<and> mousePercentage 125 1000 / 100 * real_of_int TOTAL_WINDOW_MINUTES = 105 / 2
   \<and> snap15 (real_of_int (17 * 60 + 15) + 105 / 2) = 73 * 15
   \<and> real_of_int (73 * 15) - (real_of_int (17 * 60 + 15) + 105 / 2) = 15 / 2
   \<and> (real_of_int (17 * 60 + 15) + 105 / 2) - real_of_int (72 * 15) = 15 / 2
   \<and> previewTime (foldl dispatch (initialState 1717265700000 None)
        [ToggleQuickEdit,
         ArrowClick \<lparr>time = (18, 0), table = ''4'', duration = 90, booking_id = 1, date = 19875\<rparr> Left,
         MouseMove ''4'' 125 1000]) = Some (18, 15)
   \<and> previewDuration (foldl dispatch (initialState 1717265700000 None)
        [ToggleQuickEdit,
         ArrowClick \<lparr>time = (18, 0), table = ''4'', duration = 90, booking_id = 1, date = 19875\<rparr> Left,
         MouseMove ''4'' 125 1000]) = 75"
  by code_simp

text \<open>
  Claim C8, amended: snapping is \<open>Math.round(minutes / 15) * 15\<close>, the nearest multiple
  of 15, and a tie (7.5 minutes past a quarter hour, which only the resize snapping can
  meet, the move snapping rounding whole minutes) goes up to the later quarter hour.
  The drag of the booking of table 4 on 2024-06-01 at 18:00 for 90 minutes that lands at
  18:07 snaps to 18:00.
\<close>

theorem snapping_rounds_half_up:
  "snap15 x = Math_round (x / 15) * 15
   \<and> 15 dvd snap15 x
   \<and> \<bar>real_of_int (snap15 x) - x\<bar> \<le> 15 / 2
   \<and> snap15 (15 * real_of_int k + 15 / 2) = 15 * (k + 1)
   \<and> snapDateTime n div 60000 =
        n div 60000 - getMinutes n + Math_round (real_of_int (getMinutes n) / 15) * 15
   \<and> 15 dvd snapDateTime n div 60000
   \<and> - 7 \<le> snapDateTime n div 60000 - n div 60000
   \<and> snapDateTime n div 60000 - n div 60000 \<le> 7
   \<and> format_HHmm (pointerDateTime
         (foldl dispatch (initialState 1717264800000 None)
            [ToggleQuickEdit,
             BookingClick \<lparr>time = (18, 0), table = ''4'', duration = 90, booking_id = 1, date = 19875\<rparr> 50 100])
         80 300) = (18, 7)
   \<and> previewPosition
         (foldl dispatch (initialState 1717264800000 None)
            [ToggleQuickEdit,
             BookingClick \<lparr>time = (18, 0), table = ''4'', duration = 90, booking_id = 1, date = 19875\<rparr> 50 100,
             MouseMove ''4'' 80 300])
       = Some \<lparr>pv_table = ''4'', pv_time = (18, 0), leftPercent = 100 / 7\<rparr>"
proof -
  have 1: "snap15 x = Math_round (x / 15) * 15" by (simp add: snap15_def)
  have 5: "snapDateTime n div 60000 =
        n div 60000 - getMinutes n + Math_round (real_of_int (getMinutes n) / 15) * 15"
    by (simp add: mi_snapDateTime Math_round_int_div15 getMinutes_mi)
  have 9: "format_HHmm (pointerDateTime
         (foldl dispatch (initialState 1717264800000 None)
            [ToggleQuickEdit,
             BookingClick \<lparr>time = (18, 0), table = ''4'', duration = 90, booking_id = 1, date = 19875\<rparr> 50 100])
         80 300) = (18, 7)"
    by code_simp
  have 10: "previewPosition
         (foldl dispatch (initialState 1717264800000 None)
            [ToggleQuickEdit,
             BookingClick \<lparr>time = (18, 0), table = ''4'', duration = 90, booking_id = 1, date = 19875\<rparr> 50 100,
             MouseMove ''4'' 80 300])
       = Some \<lparr>pv_table = ''4'', pv_time = (18, 0), leftPercent = 100 / 7\<rparr>"
    by code_simp
  show ?thesis
    using 1 snap15_dvd [of x] snap15_near [of x] snap15_tie [of k] 5 snapDateTime_quarter [of n]
      snapDateTime_near [of n] 9 10
    by blast
qed

section \<open>Properties: time to percentage and back\<close>

lemma pointer_back_minute:
  fixes B V :: int
  assumes B: "B = Bm * 60000" and d: "0 \<le> differenceInMinutes B V"
  shows "\<exists>e. (e = 0 \<or> e = 1) \<and> (V + differenceInMinutes B V * 60000) div 60000 = Bm - e"
proof (cases "V \<le> B")
  case True
  define r where "r = (B - V) mod 60000"
  have r: "0 \<le> r" "r < 60000" by (simp_all add: r_def)
  have "differenceInMinutes B V = (B - V) div 60000"
    using True by (simp add: differenceInMinutes_def sgn_if)
  then have "V + differenceInMinutes B V * 60000 = B - r"
    by (simp add: r_def minus_mod_eq_div_mult [symmetric])
  then have n: "V + differenceInMinutes B V * 60000 = Bm * 60000 - r"
    by (simp add: B)
  show ?thesis
  proof (cases "r = 0")
    case True
    then have "(V + differenceInMinutes B V * 60000) div 60000 = Bm - 0"
      by (simp add: n)
    then show ?thesis by blast
  next
    case False
    then have "Bm * 60000 - r = 60000 * (Bm - 1) + (60000 - r)" "0 \<le> 60000 - r" "60000 - r < 60000"
      using r by simp_all
    then have "(Bm * 60000 - r) div 60000 = Bm - 1"
      by (intro int_div_pos_eq [where r = "60000 - r"])
    then show ?thesis by (auto simp: n)
  qed
next
  case False
  then have lt: "B < V" by simp
  then have "differenceInMinutes B V = - ((V - B) div 60000)"
    by (simp add: differenceInMinutes_def sgn_if)
  moreover have "0 \<le> (V - B) div 60000" using lt by simp
  ultimately have z: "(V - B) div 60000 = 0" "differenceInMinutes B V = 0"
    using d by simp_all
  then have "V - B < 60000"
    using lt by (simp add: div_eq_0_iff)
  then have "V = 60000 * Bm + (V - B)" "0 \<le> V - B" "V - B < 60000"
    using lt by (simp_all add: B)
  then have "V div 60000 = Bm - 0"
    by (simp add: int_div_pos_eq [where r = "V - B"])
  then show ?thesis using z by auto
qed

text \<open>
  Claim C7. Let \<open>(h, m)\<close> be a time on a quarter hour whose position \<open>p\<close> on the grid
  (\<open>getBookingPosition\<close>: minutes from \<open>viewStart\<close> over 420, times 100) lies in the visible
  range. The move branch converts the offset-adjusted percentage, the pointer's
  percentage less the grab offset \<open>clickOffsetPercent\<close> that picking the booking up has
  set. With the pointer inside the row at \<open>p + clickOffsetPercent\<close> per cent, so that the
  percentage converted is \<open>p\<close>, the conversion gives back exactly \<open>(h, m)\<close>, in the very
  minute of the instant mapped, and that is the time the handler previews while a
  booking is selected for moving. The statement holds for every day, hence also for the
  day on which \<open>new Date(booking.date)\<close> falls in the browser's time zone.
\<close>

theorem time_percent_roundtrip:
  assumes h: "0 \<le> h" "h < 24"
    and m: "m = 0 \<or> m = 15 \<or> m = 30 \<or> m = 45"
    and p: "p = getBookingPosition st (h, m) day"
    and inside: "0 \<le> p" "p \<le> 100"
    and pointer: "0 \<le> p + clickOffsetPercent st" "p + clickOffsetPercent st \<le> 100"
    and w: "0 < contentWidth"
    and x: "mouseX = (p + clickOffsetPercent st) / 100 * contentWidth"
  shows "format_HHmm (moveDateTime st mouseX contentWidth) = (h, m)
       \<and> moveDateTime st mouseX contentWidth div 60000
           = setMinutes (setHours (newDate day) h) m div 60000
       \<and> (selectedBooking st = Some sb \<and> resizeBooking st = None \<longrightarrow>
            map_option pv_time
              (previewPosition (handleMouseMove st targetTable mouseX contentWidth))
              = Some (h, m))"
proof -
  define Bm where "Bm = 1440 * day + 60 * h + m"
  define V where "V = viewStart st"
  define diff where "diff = differenceInMinutes (Bm * 60000) V"
  have pd: "p = real_of_int diff / 420 * 100"
    by (simp add: p getBookingPosition_def Let_def bookingDate_ms TOTAL_WINDOW_MINUTES_420
        diff_def V_def Bm_def)
  have d0: "0 \<le> diff"
    using inside(1) by (simp add: pd zero_le_divide_iff)
  have "mouseX / contentWidth * 100 = p + clickOffsetPercent st"
    using w by (simp add: x)
  then have mp: "mousePercentage mouseX contentWidth = p + clickOffsetPercent st"
    using pointer by (simp add: mousePercentage_def)
  have adj: "max 0 (min 100 (p + clickOffsetPercent st - clickOffsetPercent st)) = p"
    using inside by simp
  have "pointerDateTime st mouseX contentWidth =
          newDate_ms (real_of_int V + p / 100 * 420 * 60000)"
    unfolding pointerDateTime_def Let_def mp adj TOTAL_WINDOW_MINUTES_420 V_def by simp
  also have "real_of_int V + p / 100 * 420 * 60000 = real_of_int (V + diff * 60000)"
    by (simp add: pd)
  finally have "pointerDateTime st mouseX contentWidth =
          newDate_ms (real_of_int (V + diff * 60000))" .
  then have n0: "pointerDateTime st mouseX contentWidth = V + diff * 60000"
    by (simp only: newDate_ms_of_int)
  obtain e where e: "e = 0 \<or> e = 1" and q: "(V + diff * 60000) div 60000 = Bm - e"
    using pointer_back_minute [of "Bm * 60000" Bm V] d0 unfolding diff_def by blast
  have q': "(V + diff * 60000) div 60000 = 60 * (24 * day + h) + m - e"
    unfolding q Bm_def by simp
  have "moveDateTime st mouseX contentWidth div 60000 = 60 * (24 * day + h) + m"
    unfolding moveDateTime_def n0 mi_snapDateTime q'
    by (rule round15_quarter [OF m e])
  then have mi: "moveDateTime st mouseX contentWidth div 60000 = 1440 * day + 60 * h + m"
    by simp
  have mr: "0 \<le> m" "m < 60" using m by auto
  have 1: "format_HHmm (moveDateTime st mouseX contentWidth) = (h, m)"
    unfolding format_HHmm_def getHours_mi getMinutes_mi mi
    using tod_parts(2,3) [OF h mr, of day] by simp
  have 2: "moveDateTime st mouseX contentWidth div 60000
           = setMinutes (setHours (newDate day) h) m div 60000"
    unfolding mi bookingDate_ms by simp
  have 3: "selectedBooking st = Some sb \<and> resizeBooking st = None \<longrightarrow>
            map_option pv_time
              (previewPosition (handleMouseMove st targetTable mouseX contentWidth))
              = Some (h, m)"
    using 1 by (simp add: handleMouseMove_def moveMove_def Let_def)
  show ?thesis
    by (intro conjI 1 2 3)
qed

text \<open>The theorem in a move: the window starts at 17:07:42.123, the booking of table 4 at
  18:00 is picked up in its middle (grab offset \<open>75 / 7\<close> per cent), and the pointer stands
  where the block's left edge is at the position of 18:00, \<open>260 / 21\<close> per cent. The
  preview shows 18:00.\<close>

theorem time_percent_roundtrip_witness:
  "selectedBooking (foldl dispatch (initialState 1717265262123 None)
      [ToggleQuickEdit,
       BookingClick \<lparr>time = (18, 0), table = ''4'', duration = 90, booking_id = 1, date = 19875\<rparr> 50 100])
     = Some \<lparr>time = (18, 0), table = ''4'', duration = 90, booking_id = 1, date = 19875\<rparr>
   \<and> clickOffsetPercent (foldl dispatch (initialState 1717265262123 None)
      [ToggleQuickEdit,
       BookingClick \<lparr>time = (18, 0), table = ''4'', duration = 90, booking_id = 1, date = 19875\<rparr> 50 100])
     = 75 / 7
   \<and> getBookingPosition (foldl dispatch (initialState 1717265262123 None)
      [ToggleQuickEdit,
       BookingClick \<lparr>time = (18, 0), table = ''4'', duration = 90, booking_id = 1, date = 19875\<rparr> 50 100])
      (18, 0) 19875 = 260 / 21
   \<and> map_option pv_time (previewPosition (handleMouseMove
      (foldl dispatch (initialState 1717265262123 None)
        [ToggleQuickEdit,
         BookingClick \<lparr>time = (18, 0), table = ''4'', duration = 90, booking_id = 1, date = 19875\<rparr> 50 100])
      ''2'' ((260 / 21 + 75 / 7) / 100 * 1000) 1000))
     = Some (18, 0)
   \<and> map_option pv_time (previewPosition (foldl dispatch (initialState 1717265262123 None)
      [ToggleQuickEdit,
       BookingClick \<lparr>time = (18, 0), table = ''4'', duration = 90, booking_id = 1, date = 19875\<rparr> 50 100,
       MouseMove ''2'' (4850 / 21) 1000]))
     = Some (18, 0)"
proof -
  let ?b = "\<lparr>time = (18, 0), table = ''4'', duration = 90, booking_id = 1, date = 19875\<rparr>"
  let ?st = "foldl dispatch (initialState 1717265262123 None)
      [ToggleQuickEdit, BookingClick ?b 50 100]"
  have sb: "selectedBooking ?st = Some ?b" by code_simp
  have rb: "resizeBooking ?st = None" by code_simp
  have o: "clickOffsetPercent ?st = 75 / 7" by code_simp
  have p: "getBookingPosition ?st (18, 0) 19875 = 260 / 21" by code_simp
  have e2e: "map_option pv_time (previewPosition (foldl dispatch (initialState 1717265262123 None)
      [ToggleQuickEdit, BookingClick ?b 50 100, MouseMove ''2'' (4850 / 21) 1000]))
     = Some (18, 0)"
    by code_simp
  have "format_HHmm (moveDateTime ?st ((260 / 21 + 75 / 7) / 100 * 1000) 1000) = (18, 0)
       \<and> moveDateTime ?st ((260 / 21 + 75 / 7) / 100 * 1000) 1000 div 60000
           = setMinutes (setHours (newDate 19875) 18) 0 div 60000
       \<and> (selectedBooking ?st = Some ?b \<and> resizeBooking ?st = None \<longrightarrow>
            map_option pv_time
              (previewPosition (handleMouseMove ?st ''2'' ((260 / 21 + 75 / 7) / 100 * 1000) 1000))
              = Some (18, 0))"
  proof (rule time_percent_roundtrip [where p = "260 / 21" and day = 19875 and st = ?st])
    show "(0::int) \<le> 18" "(18::int) < 24" "(0::int) = 0 \<or> (0::int) = 15 \<or> (0::int) = 30 \<or> (0::int) = 45"
      by simp_all
    show "260 / 21 = getBookingPosition ?st (18, 0) 19875"
      by (simp only: p)
    show "(0::real) \<le> 260 / 21" "(260::real) / 21 \<le> 100" "(0::real) < 1000"
      by simp_all
    show "0 \<le> 260 / 21 + clickOffsetPercent ?st" "260 / 21 + clickOffsetPercent ?st \<le> 100"
      unfolding o by simp_all
    show "(260 / 21 + 75 / 7) / 100 * 1000 = (260 / 21 + clickOffsetPercent ?st) / 100 * 1000"
      unfolding o by (rule refl)
  qed
  with sb rb have "map_option pv_time
      (previewPosition (handleMouseMove ?st ''2'' ((260 / 21 + 75 / 7) / 100 * 1000) 1000))
      = Some (18, 0)"
    by blast
  with sb o p e2e show ?thesis by blast
qed

section \<open>Properties: the move preview\<close>

lemma date_spread [simp]: "date (spread b c) = date b"
  by (simp add: spread_def)

lemma booking_id_spread [simp]: "booking_id (spread b c) = booking_id b"
  by (simp add: spread_def)









section \<open>Properties: resizing\<close>

text \<open>The lemmas of this section are about the pointer as a real percentage of a row of
  positive width; they say nothing of a row of width 0.\<close>

lemma resizeMove_duration:
  "MIN_DURATION \<le> previewDuration (resizeMove st rb m mouseX contentWidth)"
  "previewDuration (resizeMove st rb m mouseX contentWidth) \<le> MAX_DURATION"
  by (simp_all add: resizeMove_def Let_def MIN_DURATION_def MAX_DURATION_def)

lemma resizeMove_right_start:
  "previewTime st = Some t \<Longrightarrow>
     previewTime (resizeMove st rb Right mouseX contentWidth) = Some t"
  by (simp add: resizeMove_def Let_def)

lemma resizeMove_mode [simp]:
  "resizeMode (resizeMove st rb m mouseX contentWidth) = resizeMode st"
  "resizeBooking (resizeMove st rb m mouseX contentWidth) = resizeBooking st"
  "selectedDate (resizeMove st rb m mouseX contentWidth) = selectedDate st"
  "currentTime (resizeMove st rb m mouseX contentWidth) = currentTime st"
  by (simp_all add: resizeMove_def Let_def)

lemma toMinutes_minutesToString: "0 \<le> x \<Longrightarrow> toMinutes (minutesToString x) = x"
  by (simp add: toMinutes_def minutesToString_def js_rem_def sgn_if)

lemma viewStartMinutes_nonneg: "0 \<le> getHours d * 60 + getMinutes d"
  using getHours_range(1) [of d] getMinutes_range(1) [of d] by simp

lemma snap15_nonneg: "0 \<le> x \<Longrightarrow> 0 \<le> snap15 x"
  by (simp add: snap15_def Math_round_def)

lemma pointer_snap_nonneg:
  "0 \<le> snap15 (real_of_int (getHours d * 60 + getMinutes d)
          + mousePercentage mouseX contentWidth / 100 * real_of_int TOTAL_WINDOW_MINUTES)"
proof (rule snap15_nonneg)
  have "0 \<le> real_of_int (getHours d * 60 + getMinutes d)"
    using viewStartMinutes_nonneg [of d] by simp
  moreover have "0 \<le> mousePercentage mouseX contentWidth / 100 * real_of_int TOTAL_WINDOW_MINUTES"
    using mousePercentage_range(1) [of mouseX contentWidth] by (simp add: TOTAL_WINDOW_MINUTES_420)
  ultimately show "0 \<le> real_of_int (getHours d * 60 + getMinutes d)
          + mousePercentage mouseX contentWidth / 100 * real_of_int TOTAL_WINDOW_MINUTES"
    by linarith
qed

lemma resizeMove_left_end:
  assumes t: "previewTime st = Some t" and d: "0 < previewDuration st"
    and e: "60 \<le> toMinutes t + previewDuration st"
  shows "\<exists>t'. previewTime (resizeMove st rb Left mouseX contentWidth) = Some t'
           \<and> 0 \<le> toMinutes t'
           \<and> toMinutes t' + previewDuration (resizeMove st rb Left mouseX contentWidth)
               = toMinutes t + previewDuration st"
proof -
  define s where "s = snap15 (real_of_int (getHours (viewStart st) * 60 + getMinutes (viewStart st))
          + mousePercentage mouseX contentWidth / 100 * real_of_int TOTAL_WINDOW_MINUTES)"
  define en where "en = toMinutes t + previewDuration st"
  define nd where "nd = max MIN_DURATION (min MAX_DURATION (en - s))"
  have s0: "0 \<le> s" unfolding s_def by (rule pointer_snap_nonneg)
  have pd: "previewDuration (resizeMove st rb Left mouseX contentWidth) = nd"
    using d by (simp add: resizeMove_def Let_def t nd_def en_def s_def)
  have pt: "previewTime (resizeMove st rb Left mouseX contentWidth) = Some (minutesToString (en - nd))"
    using d by (simp add: resizeMove_def Let_def t nd_def en_def s_def)
  have "0 \<le> en - nd"
    using s0 e by (simp add: nd_def en_def MIN_DURATION_def MAX_DURATION_def)
  then have "toMinutes (minutesToString (en - nd)) = en - nd"
    by (rule toMinutes_minutesToString)
  with pd pt \<open>0 \<le> en - nd\<close> show ?thesis by (simp add: en_def)
qed

lemma handleMouseMove_resizing:
  "resizeBooking st = Some rb \<Longrightarrow> resizeMode st = Some m \<Longrightarrow>
     handleMouseMove st targetTable mouseX contentWidth = resizeMove st rb m mouseX contentWidth"
  by (simp add: handleMouseMove_def)

lemma resize_step:
  assumes rb: "resizeBooking st = Some rb" and m: "resizeMode st = Some m"
    and t: "previewTime st = Some t" and t0: "0 \<le> toMinutes t"
    and d: "0 < previewDuration st" and e: "60 \<le> toMinutes t + previewDuration st"
  shows "\<exists>t'. previewTime (handleMouseMove st targetTable mouseX contentWidth) = Some t'
           \<and> 0 \<le> toMinutes t'
           \<and> 60 \<le> previewDuration (handleMouseMove st targetTable mouseX contentWidth)
           \<and> previewDuration (handleMouseMove st targetTable mouseX contentWidth) \<le> 180
           \<and> (m = Right \<longrightarrow> t' = t)
           \<and> (m = Left \<longrightarrow>
                 toMinutes t' + previewDuration (handleMouseMove st targetTable mouseX contentWidth)
                   = toMinutes t + previewDuration st)"
proof -
  let ?st' = "resizeMove st rb m mouseX contentWidth"
  have h: "handleMouseMove st targetTable mouseX contentWidth = ?st'"
    by (rule handleMouseMove_resizing [OF rb m])
  have r: "60 \<le> previewDuration ?st'" "previewDuration ?st' \<le> 180"
    using resizeMove_duration [of st rb m mouseX contentWidth]
    by (simp_all add: MIN_DURATION_def MAX_DURATION_def)
  show ?thesis
  proof (cases m)
    case Left
    from resizeMove_left_end [OF t d e, of rb mouseX contentWidth]
    obtain t' where "previewTime (resizeMove st rb Left mouseX contentWidth) = Some t'"
      "0 \<le> toMinutes t'"
      "toMinutes t' + previewDuration (resizeMove st rb Left mouseX contentWidth)
               = toMinutes t + previewDuration st"
      by blast
    then show ?thesis using r unfolding h Left by auto
  next
    case Right
    have "previewTime ?st' = Some t"
      unfolding Right by (rule resizeMove_right_start [OF t])
    then show ?thesis using r t0 unfolding h Right by auto
  qed
qed

lemma resize_moves_invariant:
  assumes "resizeBooking st = Some rb" and "resizeMode st = Some m"
    and "previewTime st = Some t" and "0 \<le> toMinutes t"
    and "0 < previewDuration st" and "60 \<le> toMinutes t + previewDuration st"
  shows "\<exists>t'. previewTime (foldl dispatch st (map (\<lambda>(tt, x, w). MouseMove tt x w) moves)) = Some t'
           \<and> 0 \<le> toMinutes t'
           \<and> (moves \<noteq> [] \<longrightarrow>
                 60 \<le> previewDuration (foldl dispatch st (map (\<lambda>(tt, x, w). MouseMove tt x w) moves))
                 \<and> previewDuration (foldl dispatch st (map (\<lambda>(tt, x, w). MouseMove tt x w) moves)) \<le> 180)
           \<and> (m = Right \<longrightarrow> t' = t)
           \<and> (m = Left \<longrightarrow>
                 toMinutes t' + previewDuration (foldl dispatch st (map (\<lambda>(tt, x, w). MouseMove tt x w) moves))
                   = toMinutes t + previewDuration st)"
  using assms
proof (induction moves arbitrary: st t)
  case Nil
  then show ?case by simp
next
  case (Cons mv moves)
  obtain tt x w where mv: "mv = (tt, x, w)" by (cases mv)
  let ?s1 = "handleMouseMove st tt x w"
  from resize_step [OF Cons.prems(1,2,3,4,5,6), of tt x w]
  obtain t1 where s1: "previewTime ?s1 = Some t1" "0 \<le> toMinutes t1"
    "60 \<le> previewDuration ?s1" "previewDuration ?s1 \<le> 180"
    "m = Right \<longrightarrow> t1 = t"
    "m = Left \<longrightarrow> toMinutes t1 + previewDuration ?s1 = toMinutes t + previewDuration st"
    by blast
  have keep: "resizeBooking ?s1 = Some rb" "resizeMode ?s1 = Some m"
    using Cons.prems(1,2) by (simp_all add: handleMouseMove_resizing)
  have pos: "0 < previewDuration ?s1" "60 \<le> toMinutes t1 + previewDuration ?s1"
    using s1 by simp_all
  from Cons.IH [OF keep s1(1,2) pos]
  obtain t' where r: "previewTime (foldl dispatch ?s1 (map (\<lambda>(tt, x, w). MouseMove tt x w) moves)) = Some t'"
    "0 \<le> toMinutes t'"
    "moves \<noteq> [] \<longrightarrow>
        60 \<le> previewDuration (foldl dispatch ?s1 (map (\<lambda>(tt, x, w). MouseMove tt x w) moves))
        \<and> previewDuration (foldl dispatch ?s1 (map (\<lambda>(tt, x, w). MouseMove tt x w) moves)) \<le> 180"
    "m = Right \<longrightarrow> t' = t1"
    "m = Left \<longrightarrow>
        toMinutes t' + previewDuration (foldl dispatch ?s1 (map (\<lambda>(tt, x, w). MouseMove tt x w) moves))
          = toMinutes t1 + previewDuration ?s1"
    by blast
  have f: "foldl dispatch st (map (\<lambda>(tt, x, w). MouseMove tt x w) (mv # moves)) =
      foldl dispatch ?s1 (map (\<lambda>(tt, x, w). MouseMove tt x w) moves)"
    by (simp add: mv)
  show ?case
    unfolding f
  proof (cases "moves = []")
    case True
    then show "\<exists>t'. previewTime (foldl dispatch ?s1 (map (\<lambda>(tt, x, w). MouseMove tt x w) moves)) = Some t'
           \<and> 0 \<le> toMinutes t'
           \<and> (mv # moves \<noteq> [] \<longrightarrow>
                 60 \<le> previewDuration (foldl dispatch ?s1 (map (\<lambda>(tt, x, w). MouseMove tt x w) moves))
                 \<and> previewDuration (foldl dispatch ?s1 (map (\<lambda>(tt, x, w). MouseMove tt x w) moves)) \<le> 180)
           \<and> (m = Right \<longrightarrow> t' = t)
           \<and> (m = Left \<longrightarrow>
                 toMinutes t' + previewDuration (foldl dispatch ?s1 (map (\<lambda>(tt, x, w). MouseMove tt x w) moves))
                   = toMinutes t + previewDuration st)"
      using s1 by simp
  next
    case False
    then show "\<exists>t'. previewTime (foldl dispatch ?s1 (map (\<lambda>(tt, x, w). MouseMove tt x w) moves)) = Some t'
           \<and> 0 \<le> toMinutes t'
           \<and> (mv # moves \<noteq> [] \<longrightarrow>
                 60 \<le> previewDuration (foldl dispatch ?s1 (map (\<lambda>(tt, x, w). MouseMove tt x w) moves))
                 \<and> previewDuration (foldl dispatch ?s1 (map (\<lambda>(tt, x, w). MouseMove tt x w) moves)) \<le> 180)
           \<and> (m = Right \<longrightarrow> t' = t)
           \<and> (m = Left \<longrightarrow>
                 toMinutes t' + previewDuration (foldl dispatch ?s1 (map (\<lambda>(tt, x, w). MouseMove tt x w) moves))
                   = toMinutes t + previewDuration st)"
      using r s1(5,6) by auto
  qed
qed

text \<open>
  Claim C2. The claim: through any pointer moves of a resize the duration stays in
  \<open>[60, 180]\<close>, a right resize keeps the start and a left resize keeps the end. By
  \<open>resize_moves_invariant\<close> this holds whenever the booking ends at 01:00 or later. For a
  booking from 00:00 of 30 minutes (end 00:30) the first pointer move of a left resize
  clamps the duration to 60 and computes the start \<open>-30\<close>, which \<open>Math.floor(x / 60)\<close>
  and \<open>x % 60\<close> write as \<open>"-1:-30"\<close>; read back this is \<open>-90\<close> minutes, so the end has
  moved from 00:30 to \<open>-30\<close>, 23:30 of the day before.
\<close>

theorem left_resize_moves_end_before_one_oclock:
  "previewTime (foldl dispatch (initialState 1717203600000 None)
      [ToggleQuickEdit,
       ArrowClick \<lparr>time = (0, 0), table = ''1'', duration = 30, booking_id = 1, date = 19875\<rparr> Left])
     = Some (0, 0)
   \<and> previewDuration (foldl dispatch (initialState 1717203600000 None)
      [ToggleQuickEdit,
       ArrowClick \<lparr>time = (0, 0), table = ''1'', duration = 30, booking_id = 1, date = 19875\<rparr> Left])
     = 30
   \<and> previewTime (foldl dispatch (initialState 1717203600000 None)
      [ToggleQuickEdit,
       ArrowClick \<lparr>time = (0, 0), table = ''1'', duration = 30, booking_id = 1, date = 19875\<rparr> Left,
       MouseMove ''1'' 0 1000])
     = Some (- 1, - 30)
   \<and> previewDuration (foldl dispatch (initialState 1717203600000 None)
      [ToggleQuickEdit,
       ArrowClick \<lparr>time = (0, 0), table = ''1'', duration = 30, booking_id = 1, date = 19875\<rparr> Left,
       MouseMove ''1'' 0 1000])
     = 60
   \<and> toMinutes (0, 0) + 30 = 30
   \<and> toMinutes (- 1, - 30) + 60 = - 30"
  by code_simp

end
